theory Spec2Isabelle
  imports Main "HOL-Library.Word"
begin

section \<open>Data model of messages-service\<close>

text \<open>
  Go's \<open>int\<close> is taken at 64 bits: a \<open>64 word\<close>, read as two's complement by \<open>sint\<close>,
  whose addition wraps. A \<open>time.Time\<close> is an instant, counted from Go's zero time, so
  that \<open>IsZero\<close> is the test against 0. A \<open>json.RawMessage\<close> is a byte slice; the nil
  slice and the empty slice are both the empty list (the source only takes its length).
\<close>

type_synonym go_int = "64 word"
type_synonym Time = int
type_synonym RawMessage = string

definition IsZero :: "Time \<Rightarrow> bool" where
  "IsZero t \<longleftrightarrow> t = 0"

text \<open>The domain entity \<open>Mail\<close> of service.go.\<close>

record Mail =
  Mail_ID :: string
  Mail_Input :: string
  Mail_From :: string
  Mail_To :: string
  Mail_ReceivedAt :: Time
  Mail_Attempts :: go_int
  Mail_Status :: string
  Mail_Classification :: string
  Mail_ModelAnswer :: RawMessage
  Mail_FailedReason :: string

record IncomingMessageDTO =
  In_ID :: string
  In_Input :: string
  In_From :: string
  In_To :: string
  In_ReceivedAt :: Time

record ValidateMessageDTO =
  Val_ID :: string
  Val_Classification :: string
  Val_ModelAnswer :: RawMessage

record LLMTaskMessage =
  Task_ID :: string
  Task_Input :: string
  Task_From :: string
  Task_To :: string
  Task_ReceivedAt :: Time

record ProcessedMessage =
  Proc_ID :: string
  Proc_Classification :: string
  Proc_ModelAnswer :: RawMessage

record FailedMessage =
  Failed_ID :: string
  Failed_Reason :: string
  Failed_Timestamp :: Time
  Failed_Payload :: RawMessage

text \<open>The values handed to \<open>json.Marshal\<close> in service.go.\<close>

datatype Payload =
  PTask LLMTaskMessage
| PProcessed ProcessedMessage
| PFailed FailedMessage
| PValidate ValidateMessageDTO

text \<open>
  The service's configuration. The fields \<open>repo\<close> and \<open>producer\<close> of the Go struct
  are the store and the broker of the world below; the logger has no effect on either.
\<close>

record Service =
  maxAttempts :: go_int
  inputTopic :: string
  outputTopic :: string
  deadLetterTopic :: string

subsection \<open>The table \<open>mails\<close> and the broker\<close>

text \<open>
  One row of the table \<open>mails\<close>, with the columns that repo.go reads and writes. The
  columns \<open>classification\<close>, \<open>model_answer\<close> and \<open>failed_reason\<close> can be NULL
  (\<open>None\<close>): the INSERT does not name them. GetMail scans the first and the last into
  \<open>sql.NullString\<close>; what it does with a NULL \<open>model_answer\<close> is said at GetMail.
  \<open>updated_at\<close> is written by every UPDATE and left to the table's default by the
  INSERT (\<open>None\<close> here). \<open>attempts\<close> is scanned into a Go \<open>int\<close>: the column holds
  64-bit signed integers.
\<close>

record Row =
  col_input :: string
  col_from_email :: string
  col_to_email :: string
  col_received_at :: Time
  col_attempts :: go_int
  col_status :: string
  col_classification :: "string option"
  col_model_answer :: "RawMessage option"
  col_failed_reason :: "string option"
  col_updated_at :: "Time option"

text \<open>
  Modelled from the spec: the schema of the table (migrations/001_init.sql) is not part
  of the source. The spec makes \<open>id\<close> the primary key of a mail record, so the table is
  a map from id to row, and an INSERT of an id that is already there is refused. The
  spec has \<open>classification\<close>, \<open>model_answer\<close> and the failure reason absent until they
  are set, so the columns that the INSERT does not name are NULL in the new row.
\<close>

type_synonym Table = "string \<rightharpoonup> Row"

text \<open>A message on the broker: topic, key, value.\<close>

type_synonym Message = "string \<times> string \<times> string"

record World =
  mails :: Table
  sent :: "Message list"

subsection \<open>What a request takes from outside the code\<close>

text \<open>
  How a call of \<open>ExecContext\<close> followed by \<open>RowsAffected\<close> can end: the driver
  refuses the statement, the statement runs and \<open>RowsAffected\<close> returns an error, or both
  return normally.
\<close>

datatype db_outcome = ExecFails | RowsAffectedFails | Completes

text \<open>
  Each request calls every operation of the store and of the broker at most once, so one
  outcome for each operation describes every way the request can meet the outside:
  the generated UUID, the clocks of the process and of the database, the result of
  \<open>json.Marshal\<close> (\<open>None\<close> is its error), and whether each driver or broker call fails.
\<close>

record Env =
  uuid_NewString :: string
  time_Now :: Time
  sql_NOW :: Time
  json_Marshal :: "Payload \<Rightarrow> string option"
  CreateMail_exec_fails :: bool
  GetMail_scan_fails :: bool
  IncrementAttempts_db :: db_outcome
  SaveLLMResult_db :: db_outcome
  MarkAsFailed_db :: db_outcome
  Send_fails :: bool

subsection \<open>Errors\<close>

text \<open>
  The errors of repo.go: an error of the driver as it is, the error of \<open>Scan\<close> on a
  column it cannot store in its destination (\<open>unsupported Scan, storing driver.Value
  type <nil> into type *json.RawMessage\<close>), also returned as it is,
  \<open>mail not found: ...\<close> of GetMail on \<open>sql.ErrNoRows\<close>, and
  \<open>mail id %s not found\<close> of the updates that affect no row.
\<close>

datatype repo_error = ErrDriver | ErrScan | ErrMailNotFound | ErrMailIdNotFound string

text \<open>The two errors of \<open>validateLLMOutput\<close>.\<close>

datatype validation_error = EmptyClassification | EmptyModelAnswer

text \<open>The errors of service.go, one for each \<open>return\<close> of an error.\<close>

datatype svc_error =
  InputIsEmpty
| FromToMustBeSet
| SaveMail repo_error
| MarshalLLMTask
| SendToKafka
| IdIsEmpty
| SaveLLMResultFailed repo_error
| MarshalProcessedMessage
| SendProcessedToKafka
| GetMailFailed repo_error
| MarkAsFailedFailed repo_error
| MarshalFailedMessage
| SendToDLQ
| IncrementAttemptsFailed repo_error
| MarshalLLMRetryTask
| SendRetryToKafka

text \<open>
  The spec's taxonomy over these errors: a validation error is a precondition on the
  caller's input that failed; a not-found error is a store operation that found no row.
\<close>

fun is_not_found :: "repo_error \<Rightarrow> bool" where
  "is_not_found ErrDriver = False"
| "is_not_found ErrScan = False"
| "is_not_found ErrMailNotFound = True"
| "is_not_found (ErrMailIdNotFound _) = True"

fun is_validation_error :: "svc_error \<Rightarrow> bool" where
  "is_validation_error InputIsEmpty = True"
| "is_validation_error FromToMustBeSet = True"
| "is_validation_error IdIsEmpty = True"
| "is_validation_error _ = False"

section \<open>The repository (storage/repo.go)\<close>

text \<open>
  \<open>INSERT INTO mails (id, input, from_email, to_email, received_at, attempts, status)\<close>.
  The statement fails in the driver, or on an id that is in the table (the primary key);
  both are the error of \<open>ExecContext\<close>, returned as it is.
\<close>

definition CreateMail :: "Env \<Rightarrow> Mail \<Rightarrow> Table \<Rightarrow> (repo_error + unit) \<times> Table" where
  "CreateMail e m db =
     (if CreateMail_exec_fails e then (Inl ErrDriver, db)
      else case db (Mail_ID m) of
        Some _ \<Rightarrow> (Inl ErrDriver, db)
      | None \<Rightarrow>
          (Inr (),
           db(Mail_ID m \<mapsto>
             \<lparr>col_input = Mail_Input m,
              col_from_email = Mail_From m,
              col_to_email = Mail_To m,
              col_received_at = Mail_ReceivedAt m,
              col_attempts = Mail_Attempts m,
              col_status = Mail_Status m,
              col_classification = None,
              col_model_answer = None,
              col_failed_reason = None,
              col_updated_at = None\<rparr>)))"

text \<open>
  \<open>SELECT ... FROM mails WHERE id = $1\<close>, scanned into a \<open>Mail\<close>. The columns
  \<open>classification\<close> and \<open>failed_reason\<close> are scanned into \<open>sql.NullString\<close>, which takes
  a NULL. The column \<open>model_answer\<close> is scanned into a \<open>json.RawMessage\<close>, which
  \<open>database/sql\<close> cannot fill from a NULL: on such a row \<open>Scan\<close> returns an error, which
  GetMail returns as it is, and the test \<open>modelAnswer != nil\<close> after it is never reached
  with a NULL.
\<close>

definition GetMail :: "Env \<Rightarrow> string \<Rightarrow> Table \<Rightarrow> repo_error + Mail" where
  "GetMail e i db =
     (if GetMail_scan_fails e then Inl ErrDriver
      else case db i of
        None \<Rightarrow> Inl ErrMailNotFound
      | Some r \<Rightarrow>
          (case col_model_answer r of
             None \<Rightarrow> Inl ErrScan
           | Some modelAnswer \<Rightarrow>
               Inr \<lparr>Mail_ID = i,
                    Mail_Input = col_input r,
                    Mail_From = col_from_email r,
                    Mail_To = col_to_email r,
                    Mail_ReceivedAt = col_received_at r,
                    Mail_Attempts = col_attempts r,
                    Mail_Status = col_status r,
                    Mail_Classification =
                      (case col_classification r of Some c \<Rightarrow> c | None \<Rightarrow> []),
                    Mail_ModelAnswer = modelAnswer,
                    Mail_FailedReason =
                      (case col_failed_reason r of Some f \<Rightarrow> f | None \<Rightarrow> [])\<rparr>))"

text \<open>
  \<open>ExecContext\<close> of an \<open>UPDATE mails SET ... WHERE id = $1\<close>: the error of the driver,
  or the number of rows affected. The assignment \<open>upd\<close> is \<open>None\<close> where the
  database raises an error evaluating it, and then the statement changes nothing.
\<close>

definition exec_update ::
  "db_outcome \<Rightarrow> string \<Rightarrow> (Row \<Rightarrow> Row option) \<Rightarrow> Table \<Rightarrow> (repo_error + nat) \<times> Table" where
  "exec_update out i upd db =
     (if out = ExecFails then (Inl ErrDriver, db)
      else case db i of
        None \<Rightarrow> (Inr 0, db)
      | Some r \<Rightarrow>
          (case upd r of
             None \<Rightarrow> (Inl ErrDriver, db)
           | Some r' \<Rightarrow> (Inr 1, db(i \<mapsto> r'))))"

text \<open>What the three updates do after \<open>ExecContext\<close>: \<open>RowsAffected\<close>, then \<open>rows == 0\<close>.\<close>

definition rows_checked ::
  "db_outcome \<Rightarrow> string \<Rightarrow> (repo_error + nat) \<times> Table \<Rightarrow> (repo_error + unit) \<times> Table" where
  "rows_checked out i res =
     (case res of
        (Inl err, db) \<Rightarrow> (Inl err, db)
      | (Inr rows, db) \<Rightarrow>
          if out = RowsAffectedFails then (Inl ErrDriver, db)
          else if rows = 0 then (Inl (ErrMailIdNotFound i), db)
          else (Inr (), db))"

text \<open>
  \<open>SET attempts = attempts + 1, updated_at = NOW()\<close>. The sum of the largest value of
  the column and 1 is out of the column's range, which is an error of the statement.
\<close>

definition IncrementAttempts :: "Env \<Rightarrow> string \<Rightarrow> Table \<Rightarrow> (repo_error + unit) \<times> Table" where
  "IncrementAttempts e i db =
     rows_checked (IncrementAttempts_db e) i
       (exec_update (IncrementAttempts_db e) i
          (\<lambda>r. if sint (col_attempts r) = 2 ^ 63 - 1 then None
                else Some (r\<lparr>col_attempts := col_attempts r + 1,
                             col_updated_at := Some (sql_NOW e)\<rparr>))
          db)"

text \<open>\<open>SET classification = $2, model_answer = $3, status = 'processed', updated_at = NOW()\<close>.\<close>

definition SaveLLMResult ::
  "Env \<Rightarrow> string \<Rightarrow> string \<Rightarrow> RawMessage \<Rightarrow> Table \<Rightarrow> (repo_error + unit) \<times> Table" where
  "SaveLLMResult e i classification modelAnswer db =
     rows_checked (SaveLLMResult_db e) i
       (exec_update (SaveLLMResult_db e) i
          (\<lambda>r. Some (r\<lparr>col_classification := Some classification,
                        col_model_answer := Some modelAnswer,
                        col_status := ''processed'',
                        col_updated_at := Some (sql_NOW e)\<rparr>))
          db)"

text \<open>\<open>SET status = 'failed', failed_reason = $2, updated_at = NOW()\<close>.\<close>

definition MarkAsFailed :: "Env \<Rightarrow> string \<Rightarrow> string \<Rightarrow> Table \<Rightarrow> (repo_error + unit) \<times> Table" where
  "MarkAsFailed e i reason db =
     rows_checked (MarkAsFailed_db e) i
       (exec_update (MarkAsFailed_db e) i
          (\<lambda>r. Some (r\<lparr>col_status := ''failed'',
                        col_failed_reason := Some reason,
                        col_updated_at := Some (sql_NOW e)\<rparr>))
          db)"

section \<open>The producer\<close>

text \<open>
  Modelled from the spec: the implementation of the interface \<open>Producer\<close>
  (internal/kafka) is not part of the source. The spec's publish contract is
  \<open>send(channel, key, payload)\<close>, success or a technical error: a successful send adds
  the message to the channel, a failed one adds nothing.
\<close>

definition Send :: "Env \<Rightarrow> string \<Rightarrow> string \<Rightarrow> string \<Rightarrow> World \<Rightarrow> (unit + unit) \<times> World" where
  "Send e topic key val w =
     (if Send_fails e then (Inl (), w)
      else (Inr (), w\<lparr>sent := sent w @ [(topic, key, val)]\<rparr>))"

section \<open>The service (messages/service.go)\<close>

subsection \<open>Formatting\<close>

text \<open>The verb \<open>%d\<close> of \<open>fmt.Sprintf\<close>: decimal digits, a minus sign before a negative number.\<close>

fun digits :: "nat \<Rightarrow> string" where
  "digits n =
     (if n < 10 then [char_of (48 + n)]
      else digits (n div 10) @ [char_of (48 + n mod 10)])"

declare digits.simps [simp del]

definition fmt_d :: "int \<Rightarrow> string" where
  "fmt_d k = (if k < 0 then CHR ''-'' # digits (nat (- k)) else digits (nat k))"

text \<open>The verb \<open>%v\<close> on the error of \<open>validateLLMOutput\<close>: its message.\<close>

fun validation_message :: "validation_error \<Rightarrow> string" where
  "validation_message EmptyClassification = ''empty classification''"
| "validation_message EmptyModelAnswer = ''empty model_answer''"

subsection \<open>ProcessIncomingMessage\<close>

text \<open>The id and the record that \<open>ProcessIncomingMessage\<close> builds from a request.\<close>

definition admitted_id :: "Env \<Rightarrow> IncomingMessageDTO \<Rightarrow> string" where
  "admitted_id e dto = (if In_ID dto = [] then uuid_NewString e else In_ID dto)"

definition admitted_mail :: "Env \<Rightarrow> IncomingMessageDTO \<Rightarrow> Mail" where
  "admitted_mail e dto =
     \<lparr>Mail_ID = admitted_id e dto,
      Mail_Input = In_Input dto,
      Mail_From = In_From dto,
      Mail_To = In_To dto,
      Mail_ReceivedAt = (if IsZero (In_ReceivedAt dto) then time_Now e else In_ReceivedAt dto),
      Mail_Attempts = 0,
      Mail_Status = ''new'',
      Mail_Classification = [],
      Mail_ModelAnswer = [],
      Mail_FailedReason = []\<rparr>"

text \<open>The task built from a mail, in the admission and in the retry.\<close>

definition task_of :: "Mail \<Rightarrow> LLMTaskMessage" where
  "task_of m =
     \<lparr>Task_ID = Mail_ID m,
      Task_Input = Mail_Input m,
      Task_From = Mail_From m,
      Task_To = Mail_To m,
      Task_ReceivedAt = Mail_ReceivedAt m\<rparr>"

definition ProcessIncomingMessage ::
  "Service \<Rightarrow> Env \<Rightarrow> IncomingMessageDTO \<Rightarrow> World \<Rightarrow> (svc_error + unit) \<times> World" where
  "ProcessIncomingMessage s e dto w =
     (if In_Input dto = [] then (Inl InputIsEmpty, w)
      else if In_From dto = [] \<or> In_To dto = [] then (Inl FromToMustBeSet, w)
      else
        let mail = admitted_mail e dto in
        case CreateMail e mail (mails w) of
          (Inl err, db) \<Rightarrow> (Inl (SaveMail err), w\<lparr>mails := db\<rparr>)
        | (Inr _, db) \<Rightarrow>
            (case json_Marshal e (PTask (task_of mail)) of
               None \<Rightarrow> (Inl MarshalLLMTask, w\<lparr>mails := db\<rparr>)
             | Some data \<Rightarrow>
                 (case Send e (inputTopic s) (Mail_ID mail) data (w\<lparr>mails := db\<rparr>) of
                    (Inl _, w') \<Rightarrow> (Inl SendToKafka, w')
                  | (Inr _, w') \<Rightarrow> (Inr (), w'))))"

subsection \<open>ValidateProcessedMessage\<close>

definition validateLLMOutput :: "Service \<Rightarrow> ValidateMessageDTO \<Rightarrow> validation_error option" where
  "validateLLMOutput s dto =
     (if Val_Classification dto = [] then Some EmptyClassification
      else if length (Val_ModelAnswer dto) = 0 \<or> Val_ModelAnswer dto = ''null''
        then Some EmptyModelAnswer
      else None)"

text \<open>The reason written with a dead-lettered record.\<close>

definition failure_reason :: "Service \<Rightarrow> validation_error \<Rightarrow> string" where
  "failure_reason s validationErr =
     ''max attempts reached ('' @ fmt_d (sint (maxAttempts s)) @ ''): ''
       @ validation_message validationErr"

text \<open>
  The dead-letter message: the payload is the request as \<open>json.Marshal\<close> gives it, or
  nothing where that fails.
\<close>

definition failed_message :: "Service \<Rightarrow> Env \<Rightarrow> ValidateMessageDTO \<Rightarrow> validation_error \<Rightarrow> FailedMessage" where
  "failed_message s e dto validationErr =
     \<lparr>Failed_ID = Val_ID dto,
      Failed_Reason = failure_reason s validationErr,
      Failed_Timestamp = time_Now e,
      Failed_Payload = (case json_Marshal e (PValidate dto) of Some p \<Rightarrow> p | None \<Rightarrow> [])\<rparr>"

definition handleInvalidLLMOutput ::
  "Service \<Rightarrow> Env \<Rightarrow> ValidateMessageDTO \<Rightarrow> validation_error \<Rightarrow> World \<Rightarrow> (svc_error + unit) \<times> World" where
  "handleInvalidLLMOutput s e dto validationErr w =
     (case GetMail e (Val_ID dto) (mails w) of
        Inl err \<Rightarrow> (Inl (GetMailFailed err), w)
      | Inr mail \<Rightarrow>
          let currentAttempts = Mail_Attempts mail in
          if maxAttempts s \<le>s currentAttempts + 1 then
            (case MarkAsFailed e (Val_ID dto) (failure_reason s validationErr) (mails w) of
               (Inl err, db) \<Rightarrow> (Inl (MarkAsFailedFailed err), w\<lparr>mails := db\<rparr>)
             | (Inr _, db) \<Rightarrow>
                 (case json_Marshal e (PFailed (failed_message s e dto validationErr)) of
                    None \<Rightarrow> (Inl MarshalFailedMessage, w\<lparr>mails := db\<rparr>)
                  | Some data \<Rightarrow>
                      (case Send e (deadLetterTopic s) (Val_ID dto) data (w\<lparr>mails := db\<rparr>) of
                         (Inl _, w') \<Rightarrow> (Inl SendToDLQ, w')
                       | (Inr _, w') \<Rightarrow> (Inr (), w'))))
          else
            (case IncrementAttempts e (Val_ID dto) (mails w) of
               (Inl err, db) \<Rightarrow> (Inl (IncrementAttemptsFailed err), w\<lparr>mails := db\<rparr>)
             | (Inr _, db) \<Rightarrow>
                 (case json_Marshal e (PTask (task_of mail)) of
                    None \<Rightarrow> (Inl MarshalLLMRetryTask, w\<lparr>mails := db\<rparr>)
                  | Some data \<Rightarrow>
                      (case Send e (inputTopic s) (Val_ID dto) data (w\<lparr>mails := db\<rparr>) of
                         (Inl _, w') \<Rightarrow> (Inl SendRetryToKafka, w')
                       | (Inr _, w') \<Rightarrow> (Inr (), w')))))"

definition ValidateProcessedMessage ::
  "Service \<Rightarrow> Env \<Rightarrow> ValidateMessageDTO \<Rightarrow> World \<Rightarrow> (svc_error + unit) \<times> World" where
  "ValidateProcessedMessage s e dto w =
     (if Val_ID dto = [] then (Inl IdIsEmpty, w)
      else case validateLLMOutput s dto of
        Some err \<Rightarrow> handleInvalidLLMOutput s e dto err w
      | None \<Rightarrow>
          (case SaveLLMResult e (Val_ID dto) (Val_Classification dto) (Val_ModelAnswer dto) (mails w) of
             (Inl err, db) \<Rightarrow> (Inl (SaveLLMResultFailed err), w\<lparr>mails := db\<rparr>)
           | (Inr _, db) \<Rightarrow>
               (case json_Marshal e
                       (PProcessed \<lparr>Proc_ID = Val_ID dto,
                                    Proc_Classification = Val_Classification dto,
                                    Proc_ModelAnswer = Val_ModelAnswer dto\<rparr>) of
                  None \<Rightarrow> (Inl MarshalProcessedMessage, w\<lparr>mails := db\<rparr>)
                | Some data \<Rightarrow>
                    (case Send e (outputTopic s) (Val_ID dto) data (w\<lparr>mails := db\<rparr>) of
                       (Inl _, w') \<Rightarrow> (Inl SendProcessedToKafka, w')
                     | (Inr _, w') \<Rightarrow> (Inr (), w')))))"

subsection \<open>The HTTP entry points, as requests served one after the other\<close>

text \<open>
  The handlers \<open>/process\<close> and \<open>/validate_processed_message\<close> decode a request and
  call the service. A run is a list of requests, each with what it meets outside the code.
\<close>

datatype Request =
  Process Env IncomingMessageDTO
| Validate Env ValidateMessageDTO

fun handle :: "Service \<Rightarrow> World \<Rightarrow> Request \<Rightarrow> World" where
  "handle s w (Process e dto) = snd (ProcessIncomingMessage s e dto w)"
| "handle s w (Validate e dto) = snd (ValidateProcessedMessage s e dto w)"

definition run :: "Service \<Rightarrow> Request list \<Rightarrow> World \<Rightarrow> World" where
  "run s reqs w = foldl (handle s) w reqs"


text \<open>A validate-result call for the id \<open>i\<close>, with a payload that passes, or fails, the check.\<close>

fun valid_call_for :: "Service \<Rightarrow> string \<Rightarrow> Request \<Rightarrow> bool" where
  "valid_call_for s i (Process e dto) = False"
| "valid_call_for s i (Validate e dto) = (Val_ID dto = i \<and> validateLLMOutput s dto = None)"

fun invalid_call_for :: "Service \<Rightarrow> string \<Rightarrow> Request \<Rightarrow> bool" where
  "invalid_call_for s i (Process e dto) = False"
| "invalid_call_for s i (Validate e dto) = (Val_ID dto = i \<and> validateLLMOutput s dto \<noteq> None)"

subsection \<open>What one request can do to a record\<close>

text \<open>
  The four ways in which the code rewrites a row that is in the table: it leaves it,
  \<open>SaveLLMResult\<close> writes the result, \<open>MarkAsFailed\<close> writes the failure when the
  comparison of \<open>handleInvalidLLMOutput\<close> holds, \<open>IncrementAttempts\<close> adds 1 when it
  does not.
\<close>

inductive row_step :: "Service \<Rightarrow> Row \<Rightarrow> Row \<Rightarrow> bool" for s :: Service where
  kept: "row_step s r r"
| saved: "row_step s r
    (r\<lparr>col_classification := Some c, col_model_answer := Some a,
      col_status := ''processed'', col_updated_at := Some t\<rparr>)"
| failed: "maxAttempts s \<le>s col_attempts r + 1 \<Longrightarrow>
    row_step s r
      (r\<lparr>col_status := ''failed'', col_failed_reason := Some x, col_updated_at := Some t\<rparr>)"
| retried: "\<not> maxAttempts s \<le>s col_attempts r + 1 \<Longrightarrow> sint (col_attempts r) \<noteq> 2 ^ 63 - 1 \<Longrightarrow>
    row_step s r (r\<lparr>col_attempts := col_attempts r + 1, col_updated_at := Some t\<rparr>)"

section \<open>Concrete inputs\<close>

definition svc3 :: Service where
  "svc3 = \<lparr>maxAttempts = 3, inputTopic = ''llm_input'', outputTopic = ''llm_output'',
           deadLetterTopic = ''dead_letter''\<rparr>"

definition svc1 :: Service where
  "svc1 = svc3\<lparr>maxAttempts := 1\<rparr>"

definition svc_neg :: Service where
  "svc_neg = svc3\<lparr>maxAttempts := - 1\<rparr>"

text \<open>A stand-in for \<open>json.Marshal\<close> that never fails: a tag and the id.\<close>

fun marshal0 :: "Payload \<Rightarrow> string option" where
  "marshal0 (PTask t) = Some (''task '' @ Task_ID t)"
| "marshal0 (PProcessed p) = Some (''processed '' @ Proc_ID p)"
| "marshal0 (PFailed f) = Some (''failed '' @ Failed_ID f)"
| "marshal0 (PValidate v) = Some (''payload '' @ Val_ID v)"

definition env0 :: Env where
  "env0 = \<lparr>uuid_NewString = ''c0ffee'', time_Now = 1000, sql_NOW = 1001,
           json_Marshal = marshal0,
           CreateMail_exec_fails = False, GetMail_scan_fails = False,
           IncrementAttempts_db = Completes, SaveLLMResult_db = Completes,
           MarkAsFailed_db = Completes, Send_fails = False\<rparr>"

definition env_broker_down :: Env where
  "env_broker_down = env0\<lparr>Send_fails := True\<rparr>"

definition mail_in :: IncomingMessageDTO where
  "mail_in = \<lparr>In_ID = ''m1'', In_Input = ''hello'', In_From = ''a@x'', In_To = ''b@y'',
              In_ReceivedAt = 0\<rparr>"

definition mail_in_no_id :: IncomingMessageDTO where
  "mail_in_no_id = mail_in\<lparr>In_ID := []\<rparr>"

definition good_answer :: ValidateMessageDTO where
  "good_answer = \<lparr>Val_ID = ''m1'', Val_Classification = ''important'',
                  Val_ModelAnswer = ''{}''\<rparr>"

definition bad_answer :: ValidateMessageDTO where
  "bad_answer = \<lparr>Val_ID = ''m1'', Val_Classification = ''important'',
                 Val_ModelAnswer = ''null''\<rparr>"

definition row_new :: "go_int \<Rightarrow> Row" where
  "row_new n = \<lparr>col_input = ''hello'', col_from_email = ''a@x'', col_to_email = ''b@y'',
               col_received_at = 1000, col_attempts = n, col_status = ''new'',
               col_classification = None, col_model_answer = None,
               col_failed_reason = None, col_updated_at = None\<rparr>"

text \<open>The row of \<open>mail_in\<close> after a valid result, at \<open>n\<close> attempts.\<close>

definition row_done :: "go_int \<Rightarrow> Row" where
  "row_done n = (row_new n)\<lparr>col_classification := Some ''important'',
                  col_model_answer := Some ''{}'', col_status := ''processed'',
                  col_updated_at := Some 1001\<rparr>"

definition world_empty :: World where
  "world_empty = \<lparr>mails = Map.empty, sent = []\<rparr>"

definition world_m1 :: "go_int \<Rightarrow> World" where
  "world_m1 n = \<lparr>mails = [''m1'' \<mapsto> row_new n], sent = []\<rparr>"


section \<open>Facts about the repository\<close>

lemmas repo_defs = CreateMail_def GetMail_def IncrementAttempts_def SaveLLMResult_def
  MarkAsFailed_def exec_update_def rows_checked_def

text \<open>Below the largest 64-bit integer, Go's \<open>n + 1\<close> is the sum of the integers.\<close>

lemma sint_succ:
  fixes n :: go_int
  assumes "sint n \<noteq> 2 ^ 63 - 1"
  shows "sint (n + 1) = sint n + 1"
proof -
  have lt: "sint n < 2 ^ 63" using sint_lt [of n] by simp
  have ge: "- (2 ^ 63) \<le> sint n" using sint_ge [of n] by simp
  have "sint (n + 1) = signed_take_bit 63 (sint n + 1)"
    by (simp add: sint_word_ariths)
  also have "\<dots> = sint n + 1"
    using assms lt ge by (intro signed_take_bit_int_eq_self) auto
  finally show ?thesis .
qed

lemma SaveLLMResult_found:
  "db i = Some r \<Longrightarrow> SaveLLMResult_db e = Completes \<Longrightarrow>
   SaveLLMResult e i c a db =
     (Inr (), db(i \<mapsto> r\<lparr>col_classification := Some c, col_model_answer := Some a,
                         col_status := ''processed'', col_updated_at := Some (sql_NOW e)\<rparr>))"
  by (simp add: repo_defs)

lemma MarkAsFailed_found:
  "db i = Some r \<Longrightarrow> MarkAsFailed_db e = Completes \<Longrightarrow>
   MarkAsFailed e i reason db =
     (Inr (), db(i \<mapsto> r\<lparr>col_status := ''failed'', col_failed_reason := Some reason,
                         col_updated_at := Some (sql_NOW e)\<rparr>))"
  by (simp add: repo_defs)

lemma IncrementAttempts_found:
  "db i = Some r \<Longrightarrow> IncrementAttempts_db e = Completes \<Longrightarrow>
   sint (col_attempts r) \<noteq> 2 ^ 63 - 1 \<Longrightarrow>
   IncrementAttempts e i db =
     (Inr (), db(i \<mapsto> r\<lparr>col_attempts := col_attempts r + 1,
                         col_updated_at := Some (sql_NOW e)\<rparr>))"
  by (simp add: repo_defs)

lemma update_missing:
  "db i = None \<Longrightarrow>
   rows_checked out i (exec_update out i upd db) =
     (Inl (if out = Completes then ErrMailIdNotFound i else ErrDriver), db)"
  by (cases out) (simp_all add: repo_defs)

lemma World_mails_same [simp]: "w\<lparr>mails := mails w\<rparr> = w"
  by simp

section \<open>Structural validation\<close>

text \<open>
  Claim C4. \<open>validateLLMOutput\<close> fails exactly when the classification is empty, or the
  model answer is absent or empty, or the model answer is the text \<open>null\<close>; any other
  model answer passes, whatever it contains. Its result depends on the classification
  and the model answer only: not on the service, not on the id.
\<close>

theorem validateLLMOutput_structural:
  "((validateLLMOutput s dto \<noteq> None) \<longleftrightarrow>
      (Val_Classification dto = [] \<or> Val_ModelAnswer dto = [] \<or> Val_ModelAnswer dto = ''null''))
   \<and> (Val_Classification dto' = Val_Classification dto \<and>
        Val_ModelAnswer dto' = Val_ModelAnswer dto \<longrightarrow>
        validateLLMOutput s' dto' = validateLLMOutput s dto)"
  by (simp add: validateLLMOutput_def)

theorem validateLLMOutput_structural_witness:
  "Val_Classification (good_answer\<lparr>Val_ID := ''other''\<rparr>) = Val_Classification good_answer \<and>
   Val_ModelAnswer (good_answer\<lparr>Val_ID := ''other''\<rparr>) = Val_ModelAnswer good_answer \<and>
   validateLLMOutput svc1 (good_answer\<lparr>Val_ID := ''other''\<rparr>) = validateLLMOutput svc3 good_answer \<and>
   validateLLMOutput svc3 good_answer = None"
  using validateLLMOutput_structural
    [of svc3 good_answer "good_answer\<lparr>Val_ID := ''other''\<rparr>" svc1]
  by (simp add: good_answer_def)

section \<open>A valid result\<close>

text \<open>
  Claim C5. A validate-result call with a non-empty id and a payload that passes the
  structural validation, for a record that is in the store at any attempt count, when the
  save, the serialisation of the result message and the send succeed: the call returns
  success; the record holds the classification and the model answer and has status
  \<open>processed\<close>; its attempts (and every other column but \<open>updated_at\<close>) are as before;
  and exactly one message, the serialised \<open>{id, classification, model_answer}\<close> keyed by
  the id, is added to the output topic.
\<close>

theorem valid_result_is_accepted:
  assumes "Val_ID dto \<noteq> []"
    and "validateLLMOutput s dto = None"
    and "mails w (Val_ID dto) = Some r"
    and "SaveLLMResult_db e = Completes"
    and "json_Marshal e (PProcessed \<lparr>Proc_ID = Val_ID dto,
            Proc_Classification = Val_Classification dto,
            Proc_ModelAnswer = Val_ModelAnswer dto\<rparr>) = Some data"
    and "\<not> Send_fails e"
  shows "ValidateProcessedMessage s e dto w =
      (Inr (),
       \<lparr>mails = (mails w)(Val_ID dto \<mapsto>
           r\<lparr>col_classification := Some (Val_Classification dto),
             col_model_answer := Some (Val_ModelAnswer dto),
             col_status := ''processed'',
             col_updated_at := Some (sql_NOW e)\<rparr>),
        sent = sent w @ [(outputTopic s, Val_ID dto, data)]\<rparr>)
    \<and> col_attempts (r\<lparr>col_classification := Some (Val_Classification dto),
             col_model_answer := Some (Val_ModelAnswer dto),
             col_status := ''processed'',
             col_updated_at := Some (sql_NOW e)\<rparr>) = col_attempts r"
  using assms by (simp add: ValidateProcessedMessage_def SaveLLMResult_found Send_def)

theorem valid_result_is_accepted_witness:
  "Val_ID good_answer \<noteq> [] \<and>
   validateLLMOutput svc3 good_answer = None \<and>
   mails (world_m1 2) (Val_ID good_answer) = Some (row_new 2) \<and>
   SaveLLMResult_db env0 = Completes \<and>
   json_Marshal env0 (PProcessed \<lparr>Proc_ID = Val_ID good_answer,
       Proc_Classification = Val_Classification good_answer,
       Proc_ModelAnswer = Val_ModelAnswer good_answer\<rparr>) = Some ''processed m1'' \<and>
   \<not> Send_fails env0 \<and>
   ValidateProcessedMessage svc3 env0 good_answer (world_m1 2) =
     (Inr (),
      \<lparr>mails = [''m1'' \<mapsto> (row_new 2)\<lparr>col_classification := Some ''important'',
                   col_model_answer := Some ''{}'', col_status := ''processed'',
                   col_updated_at := Some 1001\<rparr>],
       sent = [(''llm_output'', ''m1'', ''processed m1'')]\<rparr>)"
  using valid_result_is_accepted
    [of good_answer svc3 "world_m1 2" "row_new 2" env0 "''processed m1''"]
  by (simp add: good_answer_def svc3_def world_m1_def env0_def validateLLMOutput_def)

section \<open>An unknown id\<close>

text \<open>
  Claim C9. In the retry and dead-letter branch (a non-empty id, a payload that fails
  the structural validation) the record is read by id first. When the id is not in the
  store the call returns the error of \<open>GetMail\<close>, which is its not-found error whenever
  the query itself ran, and neither the store nor the broker changes.
\<close>

theorem invalid_result_unknown_id:
  assumes "Val_ID dto \<noteq> []"
    and "validateLLMOutput s dto = Some verr"
    and "mails w (Val_ID dto) = None"
  shows "ValidateProcessedMessage s e dto w =
           (Inl (GetMailFailed (if GetMail_scan_fails e then ErrDriver else ErrMailNotFound)), w)
    \<and> GetMail e (Val_ID dto) (mails w) =
           Inl (if GetMail_scan_fails e then ErrDriver else ErrMailNotFound)
    \<and> (is_not_found (if GetMail_scan_fails e then ErrDriver else ErrMailNotFound)
          \<longleftrightarrow> \<not> GetMail_scan_fails e)"
  using assms
  by (simp add: ValidateProcessedMessage_def handleInvalidLLMOutput_def GetMail_def)

theorem invalid_result_unknown_id_witness:
  "Val_ID bad_answer \<noteq> [] \<and>
   validateLLMOutput svc3 bad_answer = Some EmptyModelAnswer \<and>
   mails world_empty (Val_ID bad_answer) = None \<and>
   ValidateProcessedMessage svc3 env0 bad_answer world_empty =
     (Inl (GetMailFailed ErrMailNotFound), world_empty)"
  using invalid_result_unknown_id [of bad_answer svc3 EmptyModelAnswer world_empty env0]
  by (simp add: bad_answer_def world_empty_def env0_def validateLLMOutput_def)

text \<open>
  Claim C10. A validate-result call with a non-empty id and a payload that passes the
  structural validation, for an id that is not in the store: \<open>SaveLLMResult\<close> updates no
  row and reports the id as not found (whenever the statement itself ran), the call
  returns that error, and nothing is published: the store and the broker are unchanged.
\<close>

theorem valid_payload_unknown_id:
  assumes "Val_ID dto \<noteq> []"
    and "validateLLMOutput s dto = None"
    and "mails w (Val_ID dto) = None"
  shows "ValidateProcessedMessage s e dto w =
           (Inl (SaveLLMResultFailed
                  (if SaveLLMResult_db e = Completes then ErrMailIdNotFound (Val_ID dto)
                   else ErrDriver)), w)
    \<and> SaveLLMResult e (Val_ID dto) (Val_Classification dto) (Val_ModelAnswer dto) (mails w) =
           (Inl (if SaveLLMResult_db e = Completes then ErrMailIdNotFound (Val_ID dto)
                 else ErrDriver), mails w)
    \<and> sent (snd (ValidateProcessedMessage s e dto w)) = sent w"
  using assms
  by (simp add: ValidateProcessedMessage_def SaveLLMResult_def update_missing)

theorem valid_payload_unknown_id_witness:
  "Val_ID good_answer \<noteq> [] \<and>
   validateLLMOutput svc3 good_answer = None \<and>
   mails world_empty (Val_ID good_answer) = None \<and>
   ValidateProcessedMessage svc3 env0 good_answer world_empty =
     (Inl (SaveLLMResultFailed (ErrMailIdNotFound ''m1'')), world_empty)"
  using valid_payload_unknown_id [of good_answer svc3 world_empty env0]
  by (simp add: good_answer_def world_empty_def env0_def validateLLMOutput_def)

section \<open>Admission\<close>

lemma CreateMail_result:
  "CreateMail e m db =
     (if \<not> CreateMail_exec_fails e \<and> db (Mail_ID m) = None
      then (Inr (),
            db(Mail_ID m \<mapsto>
               \<lparr>col_input = Mail_Input m, col_from_email = Mail_From m,
                col_to_email = Mail_To m, col_received_at = Mail_ReceivedAt m,
                col_attempts = Mail_Attempts m, col_status = Mail_Status m,
                col_classification = None, col_model_answer = None,
                col_failed_reason = None, col_updated_at = None\<rparr>))
      else (Inl ErrDriver, db))"
  by (simp add: CreateMail_def split: option.split)

lemma admission_error_cases:
  assumes "In_Input dto \<noteq> []" and "In_From dto \<noteq> []" and "In_To dto \<noteq> []"
  shows "fst (ProcessIncomingMessage s e dto w)
           \<in> {Inr (), Inl (SaveMail ErrDriver), Inl MarshalLLMTask, Inl SendToKafka}"
  using assms
  by (simp add: ProcessIncomingMessage_def CreateMail_result Send_def Let_def
           split: option.split)

lemma admission_mails:
  assumes "In_Input dto \<noteq> []" and "In_From dto \<noteq> []" and "In_To dto \<noteq> []"
  shows "mails (snd (ProcessIncomingMessage s e dto w)) =
           snd (CreateMail e (admitted_mail e dto) (mails w))"
  using assms
  by (simp add: ProcessIncomingMessage_def Send_def Let_def
           split: prod.split sum.split option.split)

text \<open>
  Claim C2. \<open>ProcessIncomingMessage\<close> returns a validation error exactly when the input
  text, the sender or the recipient is empty, and then changes nothing. For every other
  input the record it hands to the store has the given id, or the generated one when
  none is given, the given receipt time, or the current time when that is zero,
  attempts 0 and status \<open>new\<close>; where the store accepts the insert, that record is in
  the store when the call returns.
\<close>

theorem admission_validates_and_persists:
  "((\<exists>err. fst (ProcessIncomingMessage s e dto w) = Inl err \<and> is_validation_error err)
      \<longleftrightarrow> (In_Input dto = [] \<or> In_From dto = [] \<or> In_To dto = []))
   \<and> (In_Input dto = [] \<or> In_From dto = [] \<or> In_To dto = []
        \<longrightarrow> snd (ProcessIncomingMessage s e dto w) = w)
   \<and> (In_Input dto \<noteq> [] \<and> In_From dto \<noteq> [] \<and> In_To dto \<noteq> [] \<and>
       i = (if In_ID dto = [] then uuid_NewString e else In_ID dto) \<and>
       \<not> CreateMail_exec_fails e \<and> mails w i = None
        \<longrightarrow> mails (snd (ProcessIncomingMessage s e dto w)) i =
              Some \<lparr>col_input = In_Input dto, col_from_email = In_From dto,
                    col_to_email = In_To dto,
                    col_received_at =
                      (if In_ReceivedAt dto = 0 then time_Now e else In_ReceivedAt dto),
                    col_attempts = 0, col_status = ''new'',
                    col_classification = None, col_model_answer = None,
                    col_failed_reason = None, col_updated_at = None\<rparr>)"
proof (intro conjI impI)
  show "(\<exists>err. fst (ProcessIncomingMessage s e dto w) = Inl err \<and> is_validation_error err)
      \<longleftrightarrow> (In_Input dto = [] \<or> In_From dto = [] \<or> In_To dto = [])"
  proof (cases "In_Input dto = [] \<or> In_From dto = [] \<or> In_To dto = []")
    case True
    then show ?thesis
      by (auto simp: ProcessIncomingMessage_def)
  next
    case False
    then have "fst (ProcessIncomingMessage s e dto w)
           \<in> {Inr (), Inl (SaveMail ErrDriver), Inl MarshalLLMTask, Inl SendToKafka}"
      by (intro admission_error_cases) auto
    with False show ?thesis by auto
  qed
next
  assume "In_Input dto = [] \<or> In_From dto = [] \<or> In_To dto = []"
  then show "snd (ProcessIncomingMessage s e dto w) = w"
    by (auto simp: ProcessIncomingMessage_def)
next
  assume "In_Input dto \<noteq> [] \<and> In_From dto \<noteq> [] \<and> In_To dto \<noteq> [] \<and>
       i = (if In_ID dto = [] then uuid_NewString e else In_ID dto) \<and>
       \<not> CreateMail_exec_fails e \<and> mails w i = None"
  then have valid: "In_Input dto \<noteq> []" "In_From dto \<noteq> []" "In_To dto \<noteq> []"
    and i: "i = Mail_ID (admitted_mail e dto)"
    and free: "\<not> CreateMail_exec_fails e" "mails w i = None"
    by (auto simp: admitted_mail_def admitted_id_def)
  have "mails (snd (ProcessIncomingMessage s e dto w)) i =
          snd (CreateMail e (admitted_mail e dto) (mails w)) i"
    using valid by (simp add: admission_mails)
  also have "\<dots> = Some \<lparr>col_input = In_Input dto, col_from_email = In_From dto,
                    col_to_email = In_To dto,
                    col_received_at =
                      (if In_ReceivedAt dto = 0 then time_Now e else In_ReceivedAt dto),
                    col_attempts = 0, col_status = ''new'',
                    col_classification = None, col_model_answer = None,
                    col_failed_reason = None, col_updated_at = None\<rparr>"
    using free unfolding i
    by (simp add: CreateMail_result) (simp add: admitted_mail_def IsZero_def)
  finally show "mails (snd (ProcessIncomingMessage s e dto w)) i =
              Some \<lparr>col_input = In_Input dto, col_from_email = In_From dto,
                    col_to_email = In_To dto,
                    col_received_at =
                      (if In_ReceivedAt dto = 0 then time_Now e else In_ReceivedAt dto),
                    col_attempts = 0, col_status = ''new'',
                    col_classification = None, col_model_answer = None,
                    col_failed_reason = None, col_updated_at = None\<rparr>" .
qed

theorem admission_validates_and_persists_witness:
  "In_Input mail_in_no_id \<noteq> [] \<and> In_From mail_in_no_id \<noteq> [] \<and> In_To mail_in_no_id \<noteq> [] \<and>
   ''c0ffee'' = (if In_ID mail_in_no_id = [] then uuid_NewString env0 else In_ID mail_in_no_id) \<and>
   \<not> CreateMail_exec_fails env0 \<and> mails world_empty ''c0ffee'' = None \<and>
   mails (snd (ProcessIncomingMessage svc3 env0 mail_in_no_id world_empty)) ''c0ffee'' =
     Some (row_new 0)"
  using admission_validates_and_persists
    [of svc3 env0 mail_in_no_id world_empty "''c0ffee''"]
  by (simp add: mail_in_no_id_def mail_in_def env0_def world_empty_def row_new_def)

text \<open>
  Claim C3. For an input that passes the checks of the admission, with \<open>m\<close> the record
  built from it: the call returns success exactly when the insert of \<open>m\<close> succeeds and
  the send of the serialised task succeeds; the send acts on the world that the insert
  left, so a message is only ever added after the record is stored, and nothing is sent
  when the insert fails; when the insert succeeds and the send fails, the call returns the
  error of the send, the record is in the store as inserted (status \<open>new\<close>, attempts
  0), nothing is on the broker and nothing is undone.
\<close>

theorem admission_persists_before_publishing:
  assumes "In_Input dto \<noteq> []" and "In_From dto \<noteq> []" and "In_To dto \<noteq> []"
    and "m = admitted_mail e dto"
    and "created = CreateMail e m (mails w)"
    and "res = ProcessIncomingMessage s e dto w"
  shows "(fst res = Inr () \<longleftrightarrow>
            fst created = Inr () \<and>
            (\<exists>data. json_Marshal e (PTask (task_of m)) = Some data \<and>
               fst (Send e (inputTopic s) (Mail_ID m) data (w\<lparr>mails := snd created\<rparr>)) = Inr ()))
    \<and> (fst created \<noteq> Inr () \<longrightarrow> sent (snd res) = sent w \<and> mails (snd res) = mails w
          \<and> fst res = Inl (SaveMail ErrDriver))
    \<and> (fst res = Inr () \<longrightarrow>
          (\<exists>data. json_Marshal e (PTask (task_of m)) = Some data \<and>
             snd res = \<lparr>mails = snd created,
                        sent = sent w @ [(inputTopic s, Mail_ID m, data)]\<rparr>)
          \<and> (\<exists>r. snd created (Mail_ID m) = Some r \<and> col_status r = ''new'' \<and> col_attempts r = 0))
    \<and> (fst created = Inr () \<and> json_Marshal e (PTask (task_of m)) \<noteq> None \<and> Send_fails e \<longrightarrow>
          fst res = Inl SendToKafka \<and>
          mails (snd res) = snd created \<and>
          (\<exists>r. mails (snd res) (Mail_ID m) = Some r \<and> col_status r = ''new'' \<and> col_attempts r = 0) \<and>
          sent (snd res) = sent w)"
proof -
  have res: "res =
     (case created of
          (Inl err, db) \<Rightarrow> (Inl (SaveMail err), w\<lparr>mails := db\<rparr>)
        | (Inr _, db) \<Rightarrow>
            (case json_Marshal e (PTask (task_of m)) of
               None \<Rightarrow> (Inl MarshalLLMTask, w\<lparr>mails := db\<rparr>)
             | Some data \<Rightarrow>
                 (case Send e (inputTopic s) (Mail_ID m) data (w\<lparr>mails := db\<rparr>) of
                    (Inl _, w') \<Rightarrow> (Inl SendToKafka, w')
                  | (Inr _, w') \<Rightarrow> (Inr (), w'))))"
    unfolding assms(6) assms(5) assms(4) ProcessIncomingMessage_def Let_def
    using assms(1-3) by simp
  have m: "Mail_Status m = ''new''" "Mail_Attempts m = 0"
    using assms(4) by (simp_all add: admitted_mail_def)
  show ?thesis
  proof (cases "\<not> CreateMail_exec_fails e \<and> mails w (Mail_ID m) = None")
    case False
    then have "created = (Inl ErrDriver, mails w)"
      using assms(5) by (auto simp: CreateMail_result)
    then show ?thesis using res by simp
  next
    case True
    then have c: "created = (Inr (),
            (mails w)(Mail_ID m \<mapsto>
               \<lparr>col_input = Mail_Input m, col_from_email = Mail_From m,
                col_to_email = Mail_To m, col_received_at = Mail_ReceivedAt m,
                col_attempts = Mail_Attempts m, col_status = Mail_Status m,
                col_classification = None, col_model_answer = None,
                col_failed_reason = None, col_updated_at = None\<rparr>))"
      using assms(5) by (simp add: CreateMail_result)
    show ?thesis
    proof (cases "json_Marshal e (PTask (task_of m))")
      case None
      then show ?thesis using res c by simp
    next
      case (Some data)
      then show ?thesis using res c m by (cases "Send_fails e") (simp_all add: Send_def)
    qed
  qed
qed

theorem admission_persists_before_publishing_witness:
  "In_Input mail_in \<noteq> [] \<and> In_From mail_in \<noteq> [] \<and> In_To mail_in \<noteq> [] \<and>
   fst (CreateMail env_broker_down (admitted_mail env_broker_down mail_in) (mails world_empty)) = Inr () \<and>
   json_Marshal env_broker_down (PTask (task_of (admitted_mail env_broker_down mail_in))) \<noteq> None \<and>
   Send_fails env_broker_down \<and>
   ProcessIncomingMessage svc3 env_broker_down mail_in world_empty =
     (Inl SendToKafka, \<lparr>mails = [''m1'' \<mapsto> row_new 0], sent = []\<rparr>) \<and>
   ProcessIncomingMessage svc3 env0 mail_in world_empty =
     (Inr (), \<lparr>mails = [''m1'' \<mapsto> row_new 0], sent = [(''llm_input'', ''m1'', ''task m1'')]\<rparr>)"
proof -
  note w1 = admission_persists_before_publishing
    [of mail_in "admitted_mail env_broker_down mail_in" env_broker_down
        "CreateMail env_broker_down (admitted_mail env_broker_down mail_in) (mails world_empty)"
        world_empty "ProcessIncomingMessage svc3 env_broker_down mail_in world_empty" svc3]
  note w2 = admission_persists_before_publishing
    [of mail_in "admitted_mail env0 mail_in" env0
        "CreateMail env0 (admitted_mail env0 mail_in) (mails world_empty)"
        world_empty "ProcessIncomingMessage svc3 env0 mail_in world_empty" svc3]
  have eval1: "ProcessIncomingMessage svc3 env_broker_down mail_in world_empty =
     (Inl SendToKafka, \<lparr>mails = [''m1'' \<mapsto> row_new 0], sent = []\<rparr>)"
    by (simp add: ProcessIncomingMessage_def CreateMail_result Send_def admitted_mail_def
          admitted_id_def task_of_def IsZero_def mail_in_def env_broker_down_def env0_def
          world_empty_def row_new_def svc3_def)
  have eval2: "ProcessIncomingMessage svc3 env0 mail_in world_empty =
     (Inr (), \<lparr>mails = [''m1'' \<mapsto> row_new 0], sent = [(''llm_input'', ''m1'', ''task m1'')]\<rparr>)"
    by (simp add: ProcessIncomingMessage_def CreateMail_result Send_def admitted_mail_def
          admitted_id_def task_of_def IsZero_def mail_in_def env0_def
          world_empty_def row_new_def svc3_def)
  show ?thesis
    using w1 w2 eval1 eval2
    by (simp add: CreateMail_result admitted_mail_def admitted_id_def task_of_def
          mail_in_def env_broker_down_def env0_def world_empty_def)
qed

section \<open>An invalid result\<close>

text \<open>The task that the retry sends: the columns of the record, under its id.\<close>

lemma GetMail_task:
  assumes "db i = Some r" and "col_model_answer r = Some a" and "\<not> GetMail_scan_fails e"
  shows "\<exists>m. GetMail e i db = Inr m \<and> Mail_Attempts m = col_attempts r \<and>
           task_of m = \<lparr>Task_ID = i, Task_Input = col_input r, Task_From = col_from_email r,
                         Task_To = col_to_email r, Task_ReceivedAt = col_received_at r\<rparr>"
  using assms by (simp add: GetMail_def task_of_def)

text \<open>
  One invalid call on a record that exists and has a model answer, when nothing outside
  the code fails: the decision is Go's comparison \<open>currentAttempts+1 >= maxAttempts\<close>.
\<close>

lemma invalid_step:
  assumes id: "Val_ID dto \<noteq> []"
    and invalid: "validateLLMOutput s dto = Some verr"
    and row: "mails w (Val_ID dto) = Some r"
    and answer: "col_model_answer r = Some a"
    and range: "sint (col_attempts r) < 2 ^ 63 - 1"
    and store: "\<not> GetMail_scan_fails e" "MarkAsFailed_db e = Completes"
      "IncrementAttempts_db e = Completes"
    and send: "\<not> Send_fails e"
    and dead: "json_Marshal e (PFailed (failed_message s e dto verr)) = Some dead"
    and retry: "json_Marshal e (PTask \<lparr>Task_ID = Val_ID dto, Task_Input = col_input r,
        Task_From = col_from_email r, Task_To = col_to_email r,
        Task_ReceivedAt = col_received_at r\<rparr>) = Some retry"
  shows "ValidateProcessedMessage s e dto w =
    (Inr (),
     if sint (maxAttempts s) \<le> sint (col_attempts r) + 1
     then \<lparr>mails = (mails w)(Val_ID dto \<mapsto>
                r\<lparr>col_status := ''failed'',
                  col_failed_reason := Some (failure_reason s verr),
                  col_updated_at := Some (sql_NOW e)\<rparr>),
           sent = sent w @ [(deadLetterTopic s, Val_ID dto, dead)]\<rparr>
     else \<lparr>mails = (mails w)(Val_ID dto \<mapsto>
                r\<lparr>col_attempts := col_attempts r + 1,
                  col_updated_at := Some (sql_NOW e)\<rparr>),
           sent = sent w @ [(inputTopic s, Val_ID dto, retry)]\<rparr>)"
proof -
  obtain m where m: "GetMail e (Val_ID dto) (mails w) = Inr m"
      "Mail_Attempts m = col_attempts r"
      "task_of m = \<lparr>Task_ID = Val_ID dto, Task_Input = col_input r,
         Task_From = col_from_email r, Task_To = col_to_email r,
         Task_ReceivedAt = col_received_at r\<rparr>"
    using GetMail_task [of "mails w" "Val_ID dto" r a e, OF row answer store(1)] by blast
  have ne: "sint (col_attempts r) \<noteq> 2 ^ 63 - 1"
    using range by simp
  have decide: "maxAttempts s \<le>s col_attempts r + 1
      \<longleftrightarrow> sint (maxAttempts s) \<le> sint (col_attempts r) + 1"
    by (simp add: word_sle_eq sint_succ [OF ne])
  show ?thesis
  proof (cases "sint (maxAttempts s) \<le> sint (col_attempts r) + 1")
    case True
    then show ?thesis
      using id invalid m decide dead send
      by (simp add: ValidateProcessedMessage_def handleInvalidLLMOutput_def
            MarkAsFailed_found [of "mails w" "Val_ID dto" r e, OF row store(2)] Send_def)
  next
    case False
    then show ?thesis
      using id invalid m decide retry send
      by (simp add: ValidateProcessedMessage_def handleInvalidLLMOutput_def
            IncrementAttempts_found [of "mails w" "Val_ID dto" r e, OF row store(3) ne] Send_def)
  qed
qed

text \<open>
  Claim C1. On a mail that was admitted and has no result yet, the code does not reach
  the decision that the claim describes. The admitted row has no model answer;
  \<open>GetMail\<close> fails on it in \<open>Scan\<close>; and the validate-result call with a payload that
  fails the structural validation returns the error of \<open>GetMail\<close>: the attempts stay 0,
  the status stays \<open>new\<close>, and neither a task nor a dead-letter message is sent. Here
  with \<open>maxAttempts = 3\<close>, where the claim has the attempts go to 1 and one task sent.
\<close>

theorem invalid_result_on_admitted_mail:
  "ProcessIncomingMessage svc3 env0 mail_in world_empty =
     (Inr (), \<lparr>mails = [''m1'' \<mapsto> row_new 0],
               sent = [(''llm_input'', ''m1'', ''task m1'')]\<rparr>)
   \<and> col_attempts (row_new 0) = 0 \<and> col_status (row_new 0) = ''new''
   \<and> validateLLMOutput svc3 bad_answer = Some EmptyModelAnswer
   \<and> GetMail env0 ''m1'' [''m1'' \<mapsto> row_new 0] = Inl ErrScan
   \<and> ValidateProcessedMessage svc3 env0 bad_answer
         \<lparr>mails = [''m1'' \<mapsto> row_new 0], sent = [(''llm_input'', ''m1'', ''task m1'')]\<rparr> =
     (Inl (GetMailFailed ErrScan),
      \<lparr>mails = [''m1'' \<mapsto> row_new 0], sent = [(''llm_input'', ''m1'', ''task m1'')]\<rparr>)"
proof -
  have admitted: "ProcessIncomingMessage svc3 env0 mail_in world_empty =
     (Inr (), \<lparr>mails = [''m1'' \<mapsto> row_new 0],
               sent = [(''llm_input'', ''m1'', ''task m1'')]\<rparr>)"
    by (simp add: ProcessIncomingMessage_def CreateMail_result Send_def admitted_mail_def
          admitted_id_def task_of_def IsZero_def mail_in_def env0_def world_empty_def
          row_new_def svc3_def)
  have invalid: "validateLLMOutput svc3 bad_answer = Some EmptyModelAnswer"
    by (simp add: validateLLMOutput_def bad_answer_def)
  have scan: "GetMail env0 ''m1'' [''m1'' \<mapsto> row_new 0] = Inl ErrScan"
    by (simp add: GetMail_def env0_def row_new_def)
  have call: "ValidateProcessedMessage svc3 env0 bad_answer
         \<lparr>mails = [''m1'' \<mapsto> row_new 0], sent = [(''llm_input'', ''m1'', ''task m1'')]\<rparr> =
     (Inl (GetMailFailed ErrScan),
      \<lparr>mails = [''m1'' \<mapsto> row_new 0], sent = [(''llm_input'', ''m1'', ''task m1'')]\<rparr>)"
    using invalid scan
    by (simp add: ValidateProcessedMessage_def handleInvalidLLMOutput_def bad_answer_def)
  show ?thesis
    using admitted invalid scan call by (simp add: row_new_def)
qed



section \<open>What a request does to the table\<close>

lemma update_table:
  "snd (rows_checked out i (exec_update out i upd db)) =
     (if out = ExecFails then db
      else case db i of
        None \<Rightarrow> db
      | Some r \<Rightarrow> (case upd r of None \<Rightarrow> db | Some r' \<Rightarrow> db(i \<mapsto> r')))"
  by (simp add: rows_checked_def exec_update_def split: option.split)

lemma validate_mails:
  "mails (snd (ValidateProcessedMessage s e dto w)) =
     (if Val_ID dto = [] then mails w
      else case validateLLMOutput s dto of
        None \<Rightarrow>
          snd (SaveLLMResult e (Val_ID dto) (Val_Classification dto) (Val_ModelAnswer dto) (mails w))
      | Some verr \<Rightarrow>
          (case GetMail e (Val_ID dto) (mails w) of
             Inl _ \<Rightarrow> mails w
           | Inr m \<Rightarrow>
               if maxAttempts s \<le>s Mail_Attempts m + 1
               then snd (MarkAsFailed e (Val_ID dto) (failure_reason s verr) (mails w))
               else snd (IncrementAttempts e (Val_ID dto) (mails w))))"
  by (simp add: ValidateProcessedMessage_def handleInvalidLLMOutput_def Send_def Let_def
        split: prod.split sum.split option.split)

lemma validate_valid_row:
  assumes "mails w j = Some r" and "validateLLMOutput s dto = None"
  shows "mails (snd (ValidateProcessedMessage s e dto w)) j = Some r
    \<or> (j = Val_ID dto \<and>
        mails (snd (ValidateProcessedMessage s e dto w)) j =
          Some (r\<lparr>col_classification := Some (Val_Classification dto),
                  col_model_answer := Some (Val_ModelAnswer dto),
                  col_status := ''processed'', col_updated_at := Some (sql_NOW e)\<rparr>))"
  using assms
  by (auto simp: validate_mails SaveLLMResult_def update_table split: option.split)

lemma validate_invalid_row:
  assumes "mails w j = Some r" and "validateLLMOutput s dto = Some verr"
  shows "mails (snd (ValidateProcessedMessage s e dto w)) j = Some r
    \<or> (j = Val_ID dto \<and> maxAttempts s \<le>s col_attempts r + 1 \<and>
        mails (snd (ValidateProcessedMessage s e dto w)) j =
          Some (r\<lparr>col_status := ''failed'',
                  col_failed_reason := Some (failure_reason s verr),
                  col_updated_at := Some (sql_NOW e)\<rparr>))
    \<or> (j = Val_ID dto \<and> \<not> maxAttempts s \<le>s col_attempts r + 1 \<and>
        sint (col_attempts r) \<noteq> 2 ^ 63 - 1 \<and>
        mails (snd (ValidateProcessedMessage s e dto w)) j =
          Some (r\<lparr>col_attempts := col_attempts r + 1, col_updated_at := Some (sql_NOW e)\<rparr>))"
proof (cases "Val_ID dto = []")
  case True
  then show ?thesis
    using assms by (simp add: validate_mails)
next
  case id: False
  show ?thesis
  proof (cases "GetMail e (Val_ID dto) (mails w)")
    case (Inl err)
    then show ?thesis
      using assms id by (simp add: validate_mails)
  next
    case (Inr m)
    then obtain r0 where r0: "mails w (Val_ID dto) = Some r0"
        and m: "Mail_Attempts m = col_attempts r0"
      by (auto simp: GetMail_def split: if_splits option.splits)
    show ?thesis
    proof (cases "j = Val_ID dto")
      case True
      with r0 assms(1) have "r0 = r" by simp
      with r0 Inr m True id assms(2) show ?thesis
        by (simp add: validate_mails MarkAsFailed_def IncrementAttempts_def update_table)
    next
      case other: False
      with r0 Inr m id assms show ?thesis
        by (simp add: validate_mails MarkAsFailed_def IncrementAttempts_def update_table)
    qed
  qed
qed

lemma validate_row:
  assumes "mails w j = Some r"
  shows "\<exists>r'. mails (snd (ValidateProcessedMessage s e dto w)) j = Some r' \<and> row_step s r r'"
proof (cases "validateLLMOutput s dto")
  case None
  from validate_valid_row [OF assms None, of e] show ?thesis
    by (elim disjE conjE) (blast intro: row_step.intros)+
next
  case (Some verr)
  from validate_invalid_row [OF assms Some, of e] show ?thesis
    by (elim disjE conjE) (blast intro: row_step.intros)+
qed

lemma validate_absent:
  assumes "mails w j = None"
  shows "mails (snd (ValidateProcessedMessage s e dto w)) j = None"
  using assms
  by (auto simp: validate_mails GetMail_def SaveLLMResult_def MarkAsFailed_def
        IncrementAttempts_def update_table split: option.split)

lemma process_mails:
  "mails (snd (ProcessIncomingMessage s e dto w)) = mails w
   \<or> (mails w (admitted_id e dto) = None \<and>
      (\<exists>r. col_attempts r = 0 \<and> col_status r = ''new'' \<and>
         mails (snd (ProcessIncomingMessage s e dto w)) = (mails w)(admitted_id e dto \<mapsto> r)))"
proof (cases "In_Input dto \<noteq> [] \<and> In_From dto \<noteq> [] \<and> In_To dto \<noteq> []")
  case False
  then show ?thesis
    by (auto simp: ProcessIncomingMessage_def)
next
  case True
  then have after: "mails (snd (ProcessIncomingMessage s e dto w)) =
      snd (CreateMail e (admitted_mail e dto) (mails w))"
    by (simp add: admission_mails)
  have i: "Mail_ID (admitted_mail e dto) = admitted_id e dto"
    by (simp add: admitted_mail_def)
  show ?thesis
  proof (cases "\<not> CreateMail_exec_fails e \<and> mails w (admitted_id e dto) = None")
    case False
    then have "snd (CreateMail e (admitted_mail e dto) (mails w)) = mails w"
      by (auto simp: CreateMail_result i)
    with after show ?thesis by simp
  next
    case free: True
    let ?r = "\<lparr>col_input = Mail_Input (admitted_mail e dto),
                col_from_email = Mail_From (admitted_mail e dto),
                col_to_email = Mail_To (admitted_mail e dto),
                col_received_at = Mail_ReceivedAt (admitted_mail e dto),
                col_attempts = Mail_Attempts (admitted_mail e dto),
                col_status = Mail_Status (admitted_mail e dto),
                col_classification = None, col_model_answer = None,
                col_failed_reason = None, col_updated_at = None\<rparr>"
    have "snd (CreateMail e (admitted_mail e dto) (mails w)) = (mails w)(admitted_id e dto \<mapsto> ?r)"
      using free by (simp add: CreateMail_result i)
    moreover have "col_attempts ?r = 0 \<and> col_status ?r = ''new''"
      by (simp add: admitted_mail_def)
    ultimately show ?thesis
      using after free by metis
  qed
qed

lemma process_row:
  assumes "mails w j = Some r"
  shows "mails (snd (ProcessIncomingMessage s e dto w)) j = Some r"
  using process_mails [of s e dto w] assms by auto

lemma process_new:
  assumes "mails w j = None" and "mails (snd (ProcessIncomingMessage s e dto w)) j = Some r'"
  shows "col_attempts r' = 0 \<and> col_status r' = ''new''"
  using process_mails [of s e dto w] assms by (auto split: if_splits)

lemma handle_row:
  assumes "mails w j = Some r"
  shows "\<exists>r'. mails (handle s w req) j = Some r' \<and> row_step s r r'"
proof (cases req)
  case (Process e dto)
  then show ?thesis
    using process_row [OF assms] by (auto intro: row_step.kept)
next
  case (Validate e dto)
  then show ?thesis
    using validate_row [OF assms] by simp
qed

lemma handle_new:
  assumes "mails w j = None" and "mails (handle s w req) j = Some r'"
  shows "col_attempts r' = 0 \<and> col_status r' = ''new''"
proof (cases req)
  case (Process e dto)
  then show ?thesis
    using process_new assms by auto
next
  case (Validate e dto)
  then show ?thesis
    using validate_absent [OF assms(1)] assms(2) by simp
qed

lemma row_step_attempts:
  assumes "row_step s r r'"
  shows "sint (col_attempts r) \<le> sint (col_attempts r')"
  using assms by (induction rule: row_step.induct) (simp_all add: sint_succ)

lemma row_step_bound:
  assumes "row_step s r r'" and "sint (col_attempts r) \<le> sint (maxAttempts s)"
  shows "sint (col_attempts r') \<le> sint (maxAttempts s)"
  using assms
proof (induction rule: row_step.induct)
  case (retried r t)
  then have "sint (col_attempts r + 1) < sint (maxAttempts s)"
    by (simp add: word_sle_eq)
  then show ?case by simp
qed simp_all

section \<open>Runs\<close>

lemma run_Nil [simp]: "run s [] w = w"
  by (simp add: run_def)

lemma run_Cons [simp]: "run s (req # reqs) w = run s reqs (handle s w req)"
  by (simp add: run_def)

lemma run_append: "run s (xs @ ys) w = run s ys (run s xs w)"
  by (simp add: run_def)

lemma run_attempts_mono:
  assumes "mails w j = Some r"
  shows "\<exists>r'. mails (run s reqs w) j = Some r' \<and> sint (col_attempts r) \<le> sint (col_attempts r')"
  using assms
proof (induction reqs arbitrary: w r)
  case Nil
  then show ?case by simp
next
  case (Cons req reqs)
  from handle_row [OF Cons.prems] obtain r1
    where r1: "mails (handle s w req) j = Some r1" and step: "row_step s r r1"
    by blast
  from Cons.IH [OF r1] obtain r'
    where "mails (run s reqs (handle s w req)) j = Some r'"
      and "sint (col_attempts r1) \<le> sint (col_attempts r')"
    by blast
  with row_step_attempts [OF step] show ?case
    by auto
qed

lemma handle_bound:
  assumes "0 \<le> sint (maxAttempts s)"
    and "\<forall>j r. mails w j = Some r \<longrightarrow> sint (col_attempts r) \<le> sint (maxAttempts s)"
  shows "\<forall>j r. mails (handle s w req) j = Some r \<longrightarrow> sint (col_attempts r) \<le> sint (maxAttempts s)"
proof (intro allI impI)
  fix j r'
  assume after: "mails (handle s w req) j = Some r'"
  show "sint (col_attempts r') \<le> sint (maxAttempts s)"
  proof (cases "mails w j")
    case None
    from handle_new [OF None after] assms(1) show ?thesis by simp
  next
    case (Some r)
    from handle_row [OF Some, of s req] after have "row_step s r r'"
      by auto
    with Some assms(2) show ?thesis
      by (auto intro: row_step_bound)
  qed
qed

lemma run_bound:
  assumes "0 \<le> sint (maxAttempts s)"
    and "\<forall>j r. mails w j = Some r \<longrightarrow> sint (col_attempts r) \<le> sint (maxAttempts s)"
  shows "\<forall>j r. mails (run s reqs w) j = Some r \<longrightarrow> sint (col_attempts r) \<le> sint (maxAttempts s)"
  using assms(2)
proof (induction reqs arbitrary: w)
  case Nil
  then show ?case by simp
next
  case (Cons req reqs)
  show ?case
    unfolding run_Cons
    by (rule Cons.IH) (rule handle_bound [OF assms(1) Cons.prems])
qed

section \<open>Attempts over a run\<close>

text \<open>
  Claim C7, amended. Over any sequence of requests, from any state of the store, a
  record that is in the store stays in it and its attempts never decrease. When
  \<open>maxAttempts\<close> is not negative, from a store in which no record has more attempts
  than \<open>maxAttempts\<close> (the empty store, for one), a record that is \<open>failed\<close> after
  the run has at most \<open>maxAttempts\<close> attempts.
\<close>

theorem attempts_monotone_and_bounded:
  "(mails (run s xs w) i = Some r \<longrightarrow>
      (\<exists>r'. mails (run s (xs @ ys) w) i = Some r' \<and>
            sint (col_attempts r) \<le> sint (col_attempts r')))
   \<and> (0 \<le> sint (maxAttempts s) \<and>
       (\<forall>j r0. mails w j = Some r0 \<longrightarrow> sint (col_attempts r0) \<le> sint (maxAttempts s)) \<and>
       mails (run s xs w) i = Some rf \<and> col_status rf = ''failed''
      \<longrightarrow> sint (col_attempts rf) \<le> sint (maxAttempts s))"
proof (intro conjI impI)
  assume "mails (run s xs w) i = Some r"
  then show "\<exists>r'. mails (run s (xs @ ys) w) i = Some r' \<and>
            sint (col_attempts r) \<le> sint (col_attempts r')"
    unfolding run_append by (rule run_attempts_mono)
next
  assume a: "0 \<le> sint (maxAttempts s) \<and>
       (\<forall>j r0. mails w j = Some r0 \<longrightarrow> sint (col_attempts r0) \<le> sint (maxAttempts s)) \<and>
       mails (run s xs w) i = Some rf \<and> col_status rf = ''failed''"
  then have "\<forall>j r. mails (run s xs w) j = Some r \<longrightarrow> sint (col_attempts r) \<le> sint (maxAttempts s)"
    by (intro run_bound) simp_all
  with a show "sint (col_attempts rf) \<le> sint (maxAttempts s)"
    by blast
qed

lemma admit_m1:
  "snd (ProcessIncomingMessage s env0 mail_in world_empty) =
     \<lparr>mails = [''m1'' \<mapsto> row_new 0], sent = [(inputTopic s, ''m1'', ''task m1'')]\<rparr>"
  by (simp add: ProcessIncomingMessage_def CreateMail_result Send_def admitted_mail_def
        admitted_id_def task_of_def IsZero_def mail_in_def env0_def world_empty_def row_new_def)

lemma bad_m1:
  assumes "mails w ''m1'' = Some r" and "sint (col_attempts r) < 2 ^ 63 - 1"
    and "col_model_answer r = Some a"
  shows "snd (ValidateProcessedMessage s env0 bad_answer w) =
    (if sint (maxAttempts s) \<le> sint (col_attempts r) + 1
     then \<lparr>mails = (mails w)(''m1'' \<mapsto>
                r\<lparr>col_status := ''failed'',
                  col_failed_reason := Some (failure_reason s EmptyModelAnswer),
                  col_updated_at := Some 1001\<rparr>),
           sent = sent w @ [(deadLetterTopic s, ''m1'', ''failed m1'')]\<rparr>
     else \<lparr>mails = (mails w)(''m1'' \<mapsto>
                r\<lparr>col_attempts := col_attempts r + 1, col_updated_at := Some 1001\<rparr>),
           sent = sent w @ [(inputTopic s, ''m1'', ''task m1'')]\<rparr>)"
proof -
  have v: "validateLLMOutput s bad_answer = Some EmptyModelAnswer"
    by (simp add: validateLLMOutput_def bad_answer_def)
  have i: "Val_ID bad_answer = ''m1''"
    by (simp add: bad_answer_def)
  have "ValidateProcessedMessage s env0 bad_answer w =
    (Inr (),
     if sint (maxAttempts s) \<le> sint (col_attempts r) + 1
     then \<lparr>mails = (mails w)(Val_ID bad_answer \<mapsto>
                r\<lparr>col_status := ''failed'',
                  col_failed_reason := Some (failure_reason s EmptyModelAnswer),
                  col_updated_at := Some (sql_NOW env0)\<rparr>),
           sent = sent w @ [(deadLetterTopic s, Val_ID bad_answer, ''failed m1'')]\<rparr>
     else \<lparr>mails = (mails w)(Val_ID bad_answer \<mapsto>
                r\<lparr>col_attempts := col_attempts r + 1,
                  col_updated_at := Some (sql_NOW env0)\<rparr>),
           sent = sent w @ [(inputTopic s, Val_ID bad_answer, ''task m1'')]\<rparr>)"
    using assms
    by (intro invalid_step) (simp_all add: v i env0_def failed_message_def)
  then show ?thesis
    by (simp add: i env0_def)
qed

lemma good_m1:
  assumes "mails w ''m1'' = Some r"
  shows "snd (ValidateProcessedMessage s env0 good_answer w) =
    \<lparr>mails = (mails w)(''m1'' \<mapsto>
        r\<lparr>col_classification := Some ''important'', col_model_answer := Some ''{}'',
          col_status := ''processed'', col_updated_at := Some 1001\<rparr>),
     sent = sent w @ [(outputTopic s, ''m1'', ''processed m1'')]\<rparr>"
proof -
  have "ValidateProcessedMessage s env0 good_answer w =
      (Inr (),
       \<lparr>mails = (mails w)(Val_ID good_answer \<mapsto>
           r\<lparr>col_classification := Some (Val_Classification good_answer),
             col_model_answer := Some (Val_ModelAnswer good_answer),
             col_status := ''processed'',
             col_updated_at := Some (sql_NOW env0)\<rparr>),
        sent = sent w @ [(outputTopic s, Val_ID good_answer, ''processed m1'')]\<rparr>)"
    using assms
    by (simp add: ValidateProcessedMessage_def SaveLLMResult_found Send_def
          validateLLMOutput_def good_answer_def env0_def)
  then show ?thesis
    by (simp add: good_answer_def env0_def)
qed

text \<open>The states of \<open>mail_in\<close> in the runs below.\<close>

lemma admitted_then_valid:
  "snd (ValidateProcessedMessage s env0 good_answer
          (snd (ProcessIncomingMessage s env0 mail_in world_empty))) =
     \<lparr>mails = [''m1'' \<mapsto> row_done 0],
      sent = [(inputTopic s, ''m1'', ''task m1''), (outputTopic s, ''m1'', ''processed m1'')]\<rparr>"
  by (simp add: admit_m1 good_m1 [where r = "row_new 0"] row_done_def)

lemma row_done_facts:
  "col_attempts (row_done k) = k" "col_model_answer (row_done k) = Some ''{}''"
  "col_status (row_done k) = ''processed''"
  by (simp_all add: row_done_def row_new_def)

lemma invalid_below_limit:
  assumes "mails w ''m1'' = Some r" and "col_model_answer r = Some a"
    and "sint (col_attempts r) < 2 ^ 63 - 1"
    and "\<not> sint (maxAttempts s) \<le> sint (col_attempts r) + 1"
  shows "mails (snd (ValidateProcessedMessage s env0 bad_answer w)) ''m1'' =
    Some (r\<lparr>col_attempts := col_attempts r + 1, col_updated_at := Some 1001\<rparr>)"
  using assms by (simp add: bad_m1 [where r = r and a = a])

lemma invalid_at_limit:
  assumes "mails w ''m1'' = Some r" and "col_model_answer r = Some a"
    and "sint (col_attempts r) < 2 ^ 63 - 1"
    and "sint (maxAttempts s) \<le> sint (col_attempts r) + 1"
  shows "mails (snd (ValidateProcessedMessage s env0 bad_answer w)) ''m1'' =
    Some (r\<lparr>col_status := ''failed'',
            col_failed_reason := Some (failure_reason s EmptyModelAnswer),
            col_updated_at := Some 1001\<rparr>)"
  using assms by (simp add: bad_m1 [where r = r and a = a])

lemma valid_again:
  assumes "mails w ''m1'' = Some r"
  shows "mails (snd (ValidateProcessedMessage s env0 good_answer w)) ''m1'' =
    Some (r\<lparr>col_classification := Some ''important'', col_model_answer := Some ''{}'',
            col_status := ''processed'', col_updated_at := Some 1001\<rparr>)"
  using assms by (simp add: good_m1 [where r = r])

theorem attempts_monotone_and_bounded_witness:
  "mails (run svc3 [Process env0 mail_in, Validate env0 good_answer, Validate env0 bad_answer]
      world_empty) ''m1'' =
     Some ((row_done 0)\<lparr>col_attempts := 1\<rparr>) \<and>
   0 \<le> sint (maxAttempts svc3) \<and>
   mails world_empty = Map.empty \<and>
   (\<exists>rf. mails (run svc3 ([Process env0 mail_in, Validate env0 good_answer, Validate env0 bad_answer] @
                   [Validate env0 bad_answer, Validate env0 bad_answer]) world_empty) ''m1'' = Some rf \<and>
      col_status rf = ''failed'' \<and> col_attempts rf = 2 \<and>
      sint (1 :: go_int) \<le> sint (col_attempts rf) \<and>
      sint (col_attempts rf) \<le> sint (maxAttempts svc3))"
proof -
  let ?xs = "[Process env0 mail_in, Validate env0 good_answer, Validate env0 bad_answer]"
  let ?ys = "[Validate env0 bad_answer, Validate env0 bad_answer]"
  let ?w0 = "run svc3 [Process env0 mail_in, Validate env0 good_answer] world_empty"
  let ?r1 = "(row_done 0)\<lparr>col_attempts := 1\<rparr>"
  let ?r2 = "(row_done 0)\<lparr>col_attempts := 2\<rparr>"
  let ?rf = "(row_done 0)\<lparr>col_attempts := 2, col_status := ''failed'',
        col_failed_reason := Some (failure_reason svc3 EmptyModelAnswer)\<rparr>"
  have s: "maxAttempts svc3 = 3"
    by (simp add: svc3_def)
  have w0: "mails ?w0 ''m1'' = Some (row_done 0)"
    by (simp add: admitted_then_valid)
  have split1: "run svc3 ?xs world_empty =
      snd (ValidateProcessedMessage svc3 env0 bad_answer ?w0)"
    by (simp add: run_def)
  have one: "mails (run svc3 ?xs world_empty) ''m1'' = Some ?r1"
    unfolding split1
    using invalid_below_limit [OF w0, of "''{}''" svc3]
    by (simp add: row_done_facts s) (simp add: row_done_def)
  let ?w1 = "run svc3 ?xs world_empty"
  let ?w2 = "snd (ValidateProcessedMessage svc3 env0 bad_answer ?w1)"
  have two: "mails ?w2 ''m1'' = Some ?r2"
    using invalid_below_limit [OF one, of "''{}''" svc3]
    by (simp add: row_done_facts s) (simp add: row_done_def)
  have split3: "run svc3 (?xs @ ?ys) world_empty =
      snd (ValidateProcessedMessage svc3 env0 bad_answer ?w2)"
    by (simp add: run_def)
  have last: "mails (run svc3 (?xs @ ?ys) world_empty) ''m1'' = Some ?rf"
    unfolding split3
    using invalid_at_limit [OF two, of "''{}''" svc3]
    by (simp add: row_done_facts s) (simp add: row_done_def)
  have start: "\<forall>j r0. mails world_empty j = Some r0 \<longrightarrow>
      sint (col_attempts r0) \<le> sint (maxAttempts svc3)"
    by (simp add: world_empty_def)
  from attempts_monotone_and_bounded [of svc3 ?xs world_empty "''m1''" ?r1 ?ys,
      THEN conjunct1, rule_format, OF one] last
  have mono: "sint (1 :: go_int) \<le> sint (2 :: go_int)"
    by (simp add: row_done_facts)
  from attempts_monotone_and_bounded [of svc3 "?xs @ ?ys" world_empty "''m1''" _ "[]" ?rf,
      THEN conjunct2] start last
  have bound: "sint (2 :: go_int) \<le> sint (maxAttempts svc3)"
    by (simp add: s)
  have empty: "mails world_empty = Map.empty"
    by (simp add: world_empty_def)
  show ?thesis
    using one last empty mono bound by (simp add: s)
qed

text \<open>
  Claim C7, as stated, does not hold for a negative \<open>maxAttempts\<close>, which \<open>NewService\<close>
  takes as it takes any other: with \<open>maxAttempts = -1\<close>, a mail that is admitted,
  gets a valid result and then an invalid one is \<open>failed\<close> with 0 attempts, which is
  more than \<open>maxAttempts\<close>.
\<close>

theorem attempts_bound_counterexample:
  "map_option col_status
     (mails (run svc_neg [Process env0 mail_in, Validate env0 good_answer, Validate env0 bad_answer]
        world_empty) ''m1'') = Some ''failed''
   \<and> map_option col_attempts
     (mails (run svc_neg [Process env0 mail_in, Validate env0 good_answer, Validate env0 bad_answer]
        world_empty) ''m1'') = Some 0
   \<and> sint (maxAttempts svc_neg) = - 1
   \<and> sint (maxAttempts svc_neg) < sint (0 :: go_int)"
proof -
  let ?w0 = "run svc_neg [Process env0 mail_in, Validate env0 good_answer] world_empty"
  have s: "sint (maxAttempts svc_neg) = - 1"
    by (simp add: svc_neg_def)
  have w0: "mails ?w0 ''m1'' = Some (row_done 0)"
    by (simp add: admitted_then_valid)
  have split: "run svc_neg [Process env0 mail_in, Validate env0 good_answer, Validate env0 bad_answer]
      world_empty = snd (ValidateProcessedMessage svc_neg env0 bad_answer ?w0)"
    by (simp add: run_def)
  have "mails (snd (ValidateProcessedMessage svc_neg env0 bad_answer ?w0)) ''m1'' =
      Some ((row_done 0)\<lparr>col_status := ''failed'',
            col_failed_reason := Some (failure_reason svc_neg EmptyModelAnswer),
            col_updated_at := Some 1001\<rparr>)"
    by (rule invalid_at_limit [OF w0, of "''{}''"]) (simp_all add: row_done_facts s)
  then show ?thesis
    unfolding split by (simp add: row_done_facts s)
qed

section \<open>Status \<open>processed\<close> and \<open>failed\<close> under later calls\<close>

text \<open>
  Claim C6, as stated, does not hold: no operation looks at the status of a record
  before it writes. With \<open>maxAttempts = 1\<close>, a mail that is admitted and gets a valid
  result is \<open>processed\<close>; a later invalid result for the same id makes it \<open>failed\<close>;
  and a valid result after that makes it \<open>processed\<close> again. With \<open>maxAttempts = 3\<close>,
  the mail is \<open>processed\<close> with 0 attempts after its valid result, and a later invalid
  result for the same id makes its attempts 1.
\<close>

theorem terminal_states_counterexample:
  "map_option col_status
     (mails (run svc1 [Process env0 mail_in, Validate env0 good_answer] world_empty) ''m1'')
     = Some ''processed''
   \<and> map_option col_status
     (mails (run svc1 [Process env0 mail_in, Validate env0 good_answer, Validate env0 bad_answer]
        world_empty) ''m1'')
     = Some ''failed''
   \<and> map_option col_status
     (mails (run svc1 [Process env0 mail_in, Validate env0 good_answer, Validate env0 bad_answer,
          Validate env0 good_answer] world_empty) ''m1'')
     = Some ''processed''
   \<and> map_option col_attempts
     (mails (run svc3 [Process env0 mail_in, Validate env0 good_answer] world_empty) ''m1'')
     = Some 0
   \<and> map_option col_status
     (mails (run svc3 [Process env0 mail_in, Validate env0 good_answer, Validate env0 bad_answer]
        world_empty) ''m1'')
     = Some ''processed''
   \<and> map_option col_attempts
     (mails (run svc3 [Process env0 mail_in, Validate env0 good_answer, Validate env0 bad_answer]
        world_empty) ''m1'')
     = Some 1"
proof -
  let ?w1 = "run svc1 [Process env0 mail_in, Validate env0 good_answer] world_empty"
  let ?w3 = "run svc3 [Process env0 mail_in, Validate env0 good_answer] world_empty"
  have s: "maxAttempts svc1 = 1" "maxAttempts svc3 = 3"
    by (simp_all add: svc1_def svc3_def)
  have w1: "mails ?w1 ''m1'' = Some (row_done 0)" and w3: "mails ?w3 ''m1'' = Some (row_done 0)"
    by (simp_all add: admitted_then_valid)
  let ?f = "snd (ValidateProcessedMessage svc1 env0 bad_answer ?w1)"
  have f: "mails ?f ''m1'' =
      Some ((row_done 0)\<lparr>col_status := ''failed'',
            col_failed_reason := Some (failure_reason svc1 EmptyModelAnswer),
            col_updated_at := Some 1001\<rparr>)"
    by (rule invalid_at_limit [OF w1, of "''{}''"]) (simp_all add: row_done_facts s)
  have p: "mails (snd (ValidateProcessedMessage svc1 env0 good_answer ?f)) ''m1'' =
      Some ((row_done 0)\<lparr>col_status := ''failed'',
            col_failed_reason := Some (failure_reason svc1 EmptyModelAnswer),
            col_updated_at := Some 1001\<rparr>
          \<lparr>col_classification := Some ''important'', col_model_answer := Some ''{}'',
            col_status := ''processed'', col_updated_at := Some 1001\<rparr>)"
    by (rule valid_again [OF f])
  have q: "mails (snd (ValidateProcessedMessage svc3 env0 bad_answer ?w3)) ''m1'' =
      Some ((row_done 0)\<lparr>col_attempts := col_attempts (row_done 0) + 1,
            col_updated_at := Some 1001\<rparr>)"
    by (rule invalid_below_limit [OF w3, of "''{}''"]) (simp_all add: row_done_facts s)
  have a: "map_option col_status (mails ?w1 ''m1'') = Some ''processed''"
    and d: "map_option col_attempts (mails ?w3 ''m1'') = Some 0"
    by (simp_all add: admitted_then_valid row_done_facts)
  have b: "map_option col_status (mails ?f ''m1'') = Some ''failed''"
    using f by simp
  have c: "map_option col_status
      (mails (snd (ValidateProcessedMessage svc1 env0 good_answer ?f)) ''m1'') = Some ''processed''"
    using p by simp
  have e: "map_option col_status
      (mails (snd (ValidateProcessedMessage svc3 env0 bad_answer ?w3)) ''m1'') = Some ''processed''"
    "map_option col_attempts
      (mails (snd (ValidateProcessedMessage svc3 env0 bad_answer ?w3)) ''m1'') = Some 1"
    using q by (simp_all add: row_done_facts)
  from a b c d e show ?thesis
    by (simp add: run_def)
qed

subsection \<open>What does hold for a record that is \<open>failed\<close> or \<open>processed\<close>\<close>

text \<open>
  A record is only marked \<open>failed\<close> when its attempts + 1 reach \<open>maxAttempts\<close>, and
  from then on no increment is possible: in a run that starts from a store where every
  failed record is at the limit, every failed record is at the limit.
\<close>

lemma row_step_status:
  assumes "row_step s r r'"
  shows "col_status r' = col_status r \<or> col_status r' = ''processed'' \<or> col_status r' = ''failed''"
  using assms by (induction rule: row_step.induct) simp_all

lemma handle_failed_at_limit:
  assumes "\<forall>j r. mails w j = Some r \<and> col_status r = ''failed''
             \<longrightarrow> maxAttempts s \<le>s col_attempts r + 1"
  shows "\<forall>j r. mails (handle s w req) j = Some r \<and> col_status r = ''failed''
             \<longrightarrow> maxAttempts s \<le>s col_attempts r + 1"
proof (intro allI impI)
  fix j r'
  assume after: "mails (handle s w req) j = Some r' \<and> col_status r' = ''failed''"
  show "maxAttempts s \<le>s col_attempts r' + 1"
  proof (cases "mails w j")
    case None
    from handle_new [OF None, of s req r'] after show ?thesis
      by simp
  next
    case (Some r)
    from handle_row [OF Some, of s req] after have "row_step s r r'"
      by auto
    then show ?thesis
    proof (cases rule: row_step.cases)
      case kept
      with Some after assms show ?thesis by blast
    next
      case (saved c a t)
      with after show ?thesis by simp
    next
      case (failed x t)
      then show ?thesis by simp
    next
      case (retried t)
      with after have "col_status r = ''failed''" by simp
      with Some assms have "maxAttempts s \<le>s col_attempts r + 1" by blast
      with retried show ?thesis by simp
    qed
  qed
qed

lemma run_failed_at_limit:
  assumes "\<forall>j r. mails w j = Some r \<and> col_status r = ''failed''
             \<longrightarrow> maxAttempts s \<le>s col_attempts r + 1"
  shows "\<forall>j r. mails (run s reqs w) j = Some r \<and> col_status r = ''failed''
             \<longrightarrow> maxAttempts s \<le>s col_attempts r + 1"
  using assms
proof (induction reqs arbitrary: w)
  case Nil
  then show ?case by simp
next
  case (Cons req reqs)
  show ?case
    unfolding run_Cons
    by (rule Cons.IH) (rule handle_failed_at_limit [OF Cons.prems])
qed

text \<open>At the limit, a request leaves the attempts; only a valid result changes a failed status.\<close>

lemma at_limit_step:
  assumes "mails w i = Some r" and "maxAttempts s \<le>s col_attempts r + 1"
  shows "\<exists>r'. mails (handle s w req) i = Some r' \<and> col_attempts r' = col_attempts r \<and>
           (col_status r' = col_status r \<or> col_status r' = ''processed'' \<or>
            col_status r' = ''failed'') \<and>
           (\<not> valid_call_for s i req \<longrightarrow>
              col_status r' = col_status r \<or> col_status r' = ''failed'')"
proof (cases req)
  case (Process e dto)
  then show ?thesis
    using process_row [OF assms(1)] by simp
next
  case (Validate e dto)
  show ?thesis
  proof (cases "validateLLMOutput s dto")
    case None
    from validate_valid_row [OF assms(1) None, of e] show ?thesis
      unfolding Validate by (elim disjE conjE) (simp_all add: None)
  next
    case (Some verr)
    from validate_invalid_row [OF assms(1) Some, of e] assms(2) show ?thesis
      unfolding Validate by (elim disjE conjE) simp_all
  qed
qed

lemma at_limit_run:
  assumes "mails w i = Some r" and "maxAttempts s \<le>s col_attempts r + 1"
    and "col_status r = ''failed'' \<or> col_status r = ''processed''"
  shows "\<exists>r'. mails (run s reqs w) i = Some r' \<and> col_attempts r' = col_attempts r \<and>
           (col_status r' = ''failed'' \<or> col_status r' = ''processed'')"
  using assms
proof (induction reqs arbitrary: w r)
  case Nil
  then show ?case by simp
next
  case (Cons req reqs)
  from at_limit_step [OF Cons.prems(1,2), of req] obtain r1
    where r1: "mails (handle s w req) i = Some r1" "col_attempts r1 = col_attempts r"
      "col_status r1 = col_status r \<or> col_status r1 = ''processed'' \<or> col_status r1 = ''failed''"
    by blast
  have "maxAttempts s \<le>s col_attempts r1 + 1"
    using Cons.prems(2) r1(2) by simp
  moreover have "col_status r1 = ''failed'' \<or> col_status r1 = ''processed''"
    using Cons.prems(3) r1(3) by auto
  ultimately show ?case
    using Cons.IH [OF r1(1)] r1(2) by simp
qed

lemma failed_stays_failed:
  assumes "mails w i = Some r" and "maxAttempts s \<le>s col_attempts r + 1"
    and "col_status r = ''failed''"
    and "\<forall>req \<in> set reqs. \<not> valid_call_for s i req"
  shows "\<exists>r'. mails (run s reqs w) i = Some r' \<and> col_status r' = ''failed''"
  using assms
proof (induction reqs arbitrary: w r)
  case Nil
  then show ?case by simp
next
  case (Cons req reqs)
  from at_limit_step [OF Cons.prems(1,2), of req] Cons.prems(3,4) obtain r1
    where r1: "mails (handle s w req) i = Some r1" "col_attempts r1 = col_attempts r"
      "col_status r1 = ''failed''"
    by auto
  have "maxAttempts s \<le>s col_attempts r1 + 1"
    using Cons.prems(2) r1(2) by simp
  then show ?case
    using Cons.IH [OF r1(1) _ r1(3)] Cons.prems(4) by simp
qed

text \<open>A processed record changes only under an invalid result for its id.\<close>

lemma processed_step:
  assumes "mails w i = Some r" and "col_status r = ''processed''"
    and "\<not> invalid_call_for s i req"
  shows "\<exists>r'. mails (handle s w req) i = Some r' \<and> col_attempts r' = col_attempts r \<and>
           col_status r' = ''processed''"
proof (cases req)
  case (Process e dto)
  then show ?thesis
    using process_row [OF assms(1)] assms(2) by simp
next
  case (Validate e dto)
  show ?thesis
  proof (cases "validateLLMOutput s dto")
    case None
    from validate_valid_row [OF assms(1) None, of e] assms(2) show ?thesis
      unfolding Validate by (elim disjE conjE) simp_all
  next
    case (Some verr)
    with assms(3) Validate have "i \<noteq> Val_ID dto"
      by auto
    with validate_invalid_row [OF assms(1) Some, of e] assms(2) show ?thesis
      unfolding Validate by (elim disjE conjE) simp_all
  qed
qed

lemma processed_stays_processed:
  assumes "mails w i = Some r" and "col_status r = ''processed''"
    and "\<forall>req \<in> set reqs. \<not> invalid_call_for s i req"
  shows "\<exists>r'. mails (run s reqs w) i = Some r' \<and> col_attempts r' = col_attempts r \<and>
           col_status r' = ''processed''"
  using assms
proof (induction reqs arbitrary: w r)
  case Nil
  then show ?case by simp
next
  case (Cons req reqs)
  from processed_step [OF Cons.prems(1,2), of s req] Cons.prems(3) obtain r1
    where r1: "mails (handle s w req) i = Some r1" "col_attempts r1 = col_attempts r"
      "col_status r1 = ''processed''"
    by auto
  show ?case
    using Cons.IH [OF r1(1) r1(3)] Cons.prems(3) r1(2) by simp
qed

lemma terminal_stays_terminal:
  assumes "mails w i = Some r"
    and "col_status r = ''processed'' \<or> col_status r = ''failed''"
  shows "\<exists>r'. mails (run s reqs w) i = Some r' \<and>
           (col_status r' = ''processed'' \<or> col_status r' = ''failed'')"
  using assms
proof (induction reqs arbitrary: w r)
  case Nil
  then show ?case by simp
next
  case (Cons req reqs)
  from handle_row [OF Cons.prems(1), of s req] obtain r1
    where r1: "mails (handle s w req) i = Some r1" and step: "row_step s r r1"
    by blast
  from row_step_status [OF step] Cons.prems(2)
  have "col_status r1 = ''processed'' \<or> col_status r1 = ''failed''"
    by auto
  from Cons.IH [OF r1 this] show ?case
    by simp
qed

text \<open>
  Claim C6, amended. In a run that starts from the empty store, for a record as it is
  after any part of the run:
  if its status is \<open>failed\<close>, no later request changes its attempts; its status stays
  \<open>failed\<close> or becomes \<open>processed\<close>, and it stays \<open>failed\<close> unless a later
  validate-result call for its id has a payload that passes the structural validation;
  if its status is \<open>processed\<close>, its attempts never decrease; its status stays
  \<open>processed\<close> or becomes \<open>failed\<close>, and both its status and its attempts stay as they
  are unless a later validate-result call for its id has a payload that fails the
  structural validation.
\<close>

theorem terminal_states_amended:
  assumes "mails w = Map.empty"
    and "mails (run s xs w) i = Some r"
  shows "(col_status r = ''failed'' \<longrightarrow>
      (\<exists>r'. mails (run s (xs @ ys) w) i = Some r' \<and>
         col_attempts r' = col_attempts r \<and>
         (col_status r' = ''failed'' \<or> col_status r' = ''processed'') \<and>
         ((\<forall>req \<in> set ys. \<not> valid_call_for s i req) \<longrightarrow> col_status r' = ''failed'')))
    \<and> (col_status r = ''processed'' \<longrightarrow>
      (\<exists>r'. mails (run s (xs @ ys) w) i = Some r' \<and>
         sint (col_attempts r) \<le> sint (col_attempts r') \<and>
         (col_status r' = ''processed'' \<or> col_status r' = ''failed'') \<and>
         ((\<forall>req \<in> set ys. \<not> invalid_call_for s i req) \<longrightarrow>
            col_status r' = ''processed'' \<and> col_attempts r' = col_attempts r)))"
proof (intro conjI impI)
  assume failed: "col_status r = ''failed''"
  have "\<forall>j r. mails w j = Some r \<and> col_status r = ''failed''
             \<longrightarrow> maxAttempts s \<le>s col_attempts r + 1"
    using assms(1) by simp
  then have "\<forall>j r. mails (run s xs w) j = Some r \<and> col_status r = ''failed''
             \<longrightarrow> maxAttempts s \<le>s col_attempts r + 1"
    by (rule run_failed_at_limit)
  with assms(2) failed have limit: "maxAttempts s \<le>s col_attempts r + 1"
    by blast
  from at_limit_run [OF assms(2) limit, of ys] failed obtain r'
    where r': "mails (run s ys (run s xs w)) i = Some r'" "col_attempts r' = col_attempts r"
      "col_status r' = ''failed'' \<or> col_status r' = ''processed''"
    by auto
  have "col_status r' = ''failed''" if "\<forall>req \<in> set ys. \<not> valid_call_for s i req"
    using failed_stays_failed [OF assms(2) limit failed that] r'(1) by auto
  with r' show "\<exists>r'. mails (run s (xs @ ys) w) i = Some r' \<and>
         col_attempts r' = col_attempts r \<and>
         (col_status r' = ''failed'' \<or> col_status r' = ''processed'') \<and>
         ((\<forall>req \<in> set ys. \<not> valid_call_for s i req) \<longrightarrow> col_status r' = ''failed'')"
    unfolding run_append by blast
next
  assume processed: "col_status r = ''processed''"
  from terminal_stays_terminal [OF assms(2), of s ys] processed obtain r'
    where r': "mails (run s ys (run s xs w)) i = Some r'"
      "col_status r' = ''processed'' \<or> col_status r' = ''failed''"
    by auto
  from run_attempts_mono [OF assms(2), of s ys] r'(1)
  have mono: "sint (col_attempts r) \<le> sint (col_attempts r')"
    by auto
  have "col_status r' = ''processed'' \<and> col_attempts r' = col_attempts r"
    if "\<forall>req \<in> set ys. \<not> invalid_call_for s i req"
    using processed_stays_processed [OF assms(2) processed that] r'(1) by auto
  with r' mono show "\<exists>r'. mails (run s (xs @ ys) w) i = Some r' \<and>
         sint (col_attempts r) \<le> sint (col_attempts r') \<and>
         (col_status r' = ''processed'' \<or> col_status r' = ''failed'') \<and>
         ((\<forall>req \<in> set ys. \<not> invalid_call_for s i req) \<longrightarrow>
            col_status r' = ''processed'' \<and> col_attempts r' = col_attempts r)"
    unfolding run_append by blast
qed

theorem terminal_states_amended_witness:
  "mails world_empty = Map.empty \<and>
   mails (run svc1 [Process env0 mail_in, Validate env0 good_answer, Validate env0 bad_answer]
      world_empty) ''m1'' =
     Some ((row_done 0)\<lparr>col_status := ''failed'',
            col_failed_reason := Some (failure_reason svc1 EmptyModelAnswer)\<rparr>) \<and>
   (\<exists>r'. mails (run svc1 ([Process env0 mail_in, Validate env0 good_answer, Validate env0 bad_answer]
                  @ [Validate env0 bad_answer, Validate env0 good_answer]) world_empty) ''m1''
            = Some r' \<and>
          col_attempts r' = 0 \<and> col_status r' = ''processed'') \<and>
   (\<exists>r'. mails (run svc1 ([Process env0 mail_in, Validate env0 good_answer, Validate env0 bad_answer]
                  @ [Validate env0 bad_answer, Process env0 mail_in]) world_empty) ''m1''
            = Some r' \<and>
          col_attempts r' = 0 \<and> col_status r' = ''failed'')"
proof -
  let ?xs = "[Process env0 mail_in, Validate env0 good_answer, Validate env0 bad_answer]"
  let ?ys = "[Validate env0 bad_answer, Validate env0 good_answer]"
  let ?zs = "[Validate env0 bad_answer, Process env0 mail_in]"
  let ?w1 = "run svc1 [Process env0 mail_in, Validate env0 good_answer] world_empty"
  let ?rf = "(row_done 0)\<lparr>col_status := ''failed'',
            col_failed_reason := Some (failure_reason svc1 EmptyModelAnswer)\<rparr>"
  have s: "maxAttempts svc1 = 1"
    by (simp add: svc1_def)
  have empty: "mails world_empty = Map.empty"
    by (simp add: world_empty_def)
  have w1: "mails ?w1 ''m1'' = Some (row_done 0)"
    by (simp add: admitted_then_valid)
  have split: "run svc1 ?xs world_empty = snd (ValidateProcessedMessage svc1 env0 bad_answer ?w1)"
    by (simp add: run_def)
  have f: "mails (run svc1 ?xs world_empty) ''m1'' = Some ?rf"
    unfolding split
    using invalid_at_limit [OF w1, of "''{}''" svc1]
    by (simp add: row_done_facts s) (simp add: row_done_def)
  have st: "col_status ?rf = ''failed''" and at: "col_attempts ?rf = 0"
    by (simp_all add: row_done_facts)
  note frozen = terminal_states_amended [OF empty f, THEN conjunct1, rule_format, OF st]
  from frozen [of ?ys] obtain r1
    where r1: "mails (run svc1 (?xs @ ?ys) world_empty) ''m1'' = Some r1" "col_attempts r1 = 0"
    using at by auto
  have "run svc1 (?xs @ ?ys) world_empty =
      snd (ValidateProcessedMessage svc1 env0 good_answer
            (snd (ValidateProcessedMessage svc1 env0 bad_answer (run svc1 ?xs world_empty))))"
    by (simp add: run_def)
  moreover obtain r0 where "mails (snd (ValidateProcessedMessage svc1 env0 bad_answer
      (run svc1 ?xs world_empty))) ''m1'' = Some r0"
    using frozen [of "[Validate env0 bad_answer]"] by (auto simp: run_def)
  ultimately have "col_status r1 = ''processed''"
    using valid_again [of _ r0 svc1] r1(1) by auto
  with r1 have one: "\<exists>r'. mails (run svc1 (?xs @ ?ys) world_empty) ''m1'' = Some r' \<and>
          col_attempts r' = 0 \<and> col_status r' = ''processed''"
    by blast
  have none: "\<forall>req \<in> set ?zs. \<not> valid_call_for svc1 ''m1'' req"
    by (simp add: validateLLMOutput_def bad_answer_def)
  from frozen [of ?zs] none at
  have two: "\<exists>r'. mails (run svc1 (?xs @ ?zs) world_empty) ''m1'' = Some r' \<and>
          col_attempts r' = 0 \<and> col_status r' = ''failed''"
    by auto
  from empty f one two show ?thesis
    by blast
qed

end
